theory Spec2Isabelle
  imports Complex_Main
begin

section \<open>Sairen MarketEnv: data model\<close>

text \<open>
  The model follows \<^verbatim>\<open>src/sairen/env.py\<close>. Python floats are idealised as real numbers
  (with the three special values kept apart where the code can tell them from the finite
  ones), Python ints are \<open>int\<close>. The broker gateway \<^verbatim>\<open>self.ib\<close> is a black box: what it
  answers when it is queried is an input of each operation, and what the environment asks
  it to do is appended to a trace kept in the state.

  The gateway calls \<^verbatim>\<open>_on_mktdata\<close>, \<^verbatim>\<open>_on_order\<close> and \<^verbatim>\<open>_on_alert\<close> from its own
  thread. The model delivers such events to the environment between two calls of the
  caller and at the places where the caller's thread is suspended: the two
  \<^verbatim>\<open>time.sleep(1)\<close> and the two blocking \<^verbatim>\<open>data_q.get()\<close>. Each callback and each
  stretch of the caller's code between two such places runs as one atomic step.
\<close>

text \<open>A float argument: finite, or one of the special values of IEEE arithmetic.\<close>

datatype pyfloat = Fin real | PosInf | NegInf | NaN

text \<open>The fifteen fields of \<^verbatim>\<open>ibroke.Bar\<close>, in the order of the namedtuple.\<close>

record bar =
  bar_time :: real
  bar_bid :: real
  bar_bidsize :: real
  bar_ask :: real
  bar_asksize :: real
  bar_last :: real
  bar_lastsize :: real
  bar_lasttime :: real
  bar_open :: real
  bar_high :: real
  bar_low :: real
  bar_close :: real
  bar_vwap :: real
  bar_volume :: real
  bar_open_interest :: real

text \<open>An observation is a Python value: \<open>None\<close>, or a numeric array.\<close>

type_synonym obs = "real list option"

text \<open>What the gateway answers at one moment: \<^verbatim>\<open>get_position\<close>, \<^verbatim>\<open>get_cost\<close>,
  \<^verbatim>\<open>connected\<close> and the number of items of \<^verbatim>\<open>get_open_orders()\<close>.\<close>

record gw =
  gw_position :: int
  gw_cost :: "real option"
  gw_connected :: bool
  gw_open_orders :: nat

text \<open>What the environment asks of the gateway, of the clock and of the logger (warnings only).\<close>

datatype effect =
    CancelAll
  | OrderTarget int
  | Flatten
  | Disconnect
  | Sleep
  | WarnBehind nat
  | WarnConstipation int nat
  | WarnAlert

datatype error = TypeError | ValueError | AssertionError | AttributeError

text \<open>The constructor's parameters that the operations read, and \<^verbatim>\<open>instrument.leverage\<close>.\<close>

record config =
  max_quantity :: int
  episode_steps :: "int option"
  leverage :: real
  xform :: "real list \<Rightarrow> real \<Rightarrow> int \<Rightarrow> int \<Rightarrow> obs"

text \<open>The asserts of \<^verbatim>\<open>__init__\<close>; \<^verbatim>\<open>MAX_INSTRUMENT_QUANTITY = 20000\<close>.\<close>

definition MAX_INSTRUMENT_QUANTITY :: int where
  "MAX_INSTRUMENT_QUANTITY = 20000"

definition valid_config :: "config \<Rightarrow> bool" where
  "valid_config cfg =
     (1 \<le> max_quantity cfg \<and> max_quantity cfg \<le> MAX_INSTRUMENT_QUANTITY \<and>
      (case episode_steps cfg of None \<Rightarrow> True | Some n \<Rightarrow> 0 < n))"

text \<open>The default transform: the identity on the raw array.\<close>

definition default_xform :: "real list \<Rightarrow> real \<Rightarrow> int \<Rightarrow> int \<Rightarrow> obs" where
  "default_xform ob ug pos mq = Some ob"

text \<open>The attributes of a \<^verbatim>\<open>MarketEnv\<close>. \<open>done_flag\<close> is \<^verbatim>\<open>self.done\<close>, \<open>finish_flag\<close> is
  \<^verbatim>\<open>self._finish_on_next_step\<close>; \<open>data_q\<close> is \<open>None\<close> until the first reset and then the
  list of queued items, oldest first; \<open>trace\<close> records the effects, oldest first.\<close>

record env =
  data_q :: "obs list option"
  profit :: real
  episode_profit :: real
  reward :: "real option"
  raw_obs :: "bar option"
  observation :: obs
  pos_desired :: int
  done_flag :: bool
  step_num :: int
  unrealized_gain :: real
  finish_flag :: bool
  pos_actual :: int
  act_start_time :: "real option"
  act_time :: "real list"
  action :: "pyfloat option"
  trace :: "effect list"

text \<open>The state at the end of \<^verbatim>\<open>__init__\<close>, given the position the gateway reports.\<close>

definition init_env :: "int \<Rightarrow> env" where
  "init_env pos =
     \<lparr> data_q = None, profit = 0, episode_profit = 0, reward = None, raw_obs = None,
       observation = None, pos_desired = 0, done_flag = True, step_num = 0,
       unrealized_gain = 0, finish_flag = False, pos_actual = pos,
       act_start_time = None, act_time = [], action = None, trace = [] \<rparr>"

section \<open>The callbacks\<close>

text \<open>\<^verbatim>\<open>np.asarray(bar, dtype=float)\<close>.\<close>

definition bar_array :: "bar \<Rightarrow> real list" where
  "bar_array b =
     [bar_time b, bar_bid b, bar_bidsize b, bar_ask b, bar_asksize b, bar_last b,
      bar_lastsize b, bar_lasttime b, bar_open b, bar_high b, bar_low b, bar_close b,
      bar_vwap b, bar_volume b, bar_open_interest b]"

text \<open>\<^verbatim>\<open>get_cost(...) or 0\<close>: a missing cost, and a cost of zero, count as zero.\<close>

definition cost_or_0 :: "real option \<Rightarrow> real" where
  "cost_or_0 c = (case c of None \<Rightarrow> 0 | Some v \<Rightarrow> v)"

text \<open>Line 130: what the position would fetch now, buying at the ask and selling at the bid.\<close>

definition unrealized :: "config \<Rightarrow> bar \<Rightarrow> gw \<Rightarrow> real" where
  "unrealized cfg b g =
     of_int (gw_position g) * leverage cfg *
       ((if 0 < gw_position g then bar_bid b else bar_ask b) - cost_or_0 (gw_cost g))"

text \<open>Lines 131-132: the transform applied to the raw bar.\<close>

definition cooked :: "config \<Rightarrow> bar \<Rightarrow> gw \<Rightarrow> obs" where
  "cooked cfg b g =
     xform cfg (bar_array b) (unrealized cfg b g) (gw_position g) (max_quantity cfg)"

text \<open>\<^verbatim>\<open>data_q.put_nowait\<close> and \<^verbatim>\<open>data_q.qsize\<close> of the unbounded queue.\<close>

definition put_nowait :: "obs \<Rightarrow> env \<Rightarrow> env" where
  "put_nowait ob e = (case data_q e of None \<Rightarrow> e | Some q \<Rightarrow> e\<lparr>data_q := Some (q @ [ob])\<rparr>)"

definition qsize :: "env \<Rightarrow> nat" where
  "qsize e = (case data_q e of None \<Rightarrow> 0 | Some q \<Rightarrow> length q)"

text \<open>\<^verbatim>\<open>_on_mktdata\<close> (lines 125-138).\<close>

definition on_mktdata :: "config \<Rightarrow> bar \<Rightarrow> gw \<Rightarrow> env \<Rightarrow> env" where
  "on_mktdata cfg b g e =
     (let e1 = e\<lparr>raw_obs := Some b, pos_actual := gw_position g,
                 unrealized_gain := unrealized cfg b g\<rparr>;
          ob = cooked cfg b g
      in if ob \<noteq> None \<and> gw_connected g \<and> \<not> done_flag e1 \<and> data_q e1 \<noteq> None then
           (let e2 = put_nowait ob e1
            in if 1 < qsize e2 then e2\<lparr>trace := trace e2 @ [WarnBehind (qsize e2)]\<rparr> else e2)
         else e1)"

text \<open>\<^verbatim>\<open>_on_order\<close> (lines 140-143).\<close>

definition on_order :: "real \<Rightarrow> env \<Rightarrow> env" where
  "on_order p e = e\<lparr>profit := profit e + p\<rparr>"

text \<open>\<^verbatim>\<open>_on_alert\<close> (lines 145-146).\<close>

definition on_alert :: "env \<Rightarrow> env" where
  "on_alert e = e\<lparr>trace := trace e @ [WarnAlert]\<rparr>"

text \<open>One event from the gateway's thread, and a run of them in order of arrival.\<close>

datatype event = OnBar bar gw | OnOrder real | OnAlert

fun on_event :: "config \<Rightarrow> event \<Rightarrow> env \<Rightarrow> env" where
  "on_event cfg (OnBar b g) e = on_mktdata cfg b g e"
| "on_event cfg (OnOrder p) e = on_order p e"
| "on_event cfg OnAlert e = on_alert e"

fun deliver :: "config \<Rightarrow> event list \<Rightarrow> env \<Rightarrow> env" where
  "deliver cfg [] e = e"
| "deliver cfg (ev # evs) e = deliver cfg evs (on_event cfg ev e)"

text \<open>The profit contributions of the order events of a run, summed.\<close>

fun fills :: "event list \<Rightarrow> real" where
  "fills [] = 0"
| "fills (OnOrder p # evs) = p + fills evs"
| "fills (OnBar b g # evs) = fills evs"
| "fills (OnAlert # evs) = fills evs"

section \<open>The blocking queue\<close>

text \<open>The outcome of a call: it never returns (the feed stalled while it was waiting on
  the queue), it raised, leaving the state as it was at the raise, or it returned a
  value, the new state and the events that had not arrived yet.\<close>

datatype 'a outcome = Blocked | Raised error env | Returned 'a env "event list"

text \<open>Whether \<^verbatim>\<open>data_q\<close> holds an item.\<close>

definition q_ready :: "env \<Rightarrow> bool" where
  "q_ready e = (case data_q e of None \<Rightarrow> False | Some q \<Rightarrow> q \<noteq> [])"

text \<open>The caller waits on the empty queue while the gateway's events arrive one by one; it
  wakes up as soon as the queue holds an item. \<open>None\<close>: the events ran out first.\<close>

fun wait_q :: "config \<Rightarrow> event list \<Rightarrow> env \<Rightarrow> (env \<times> event list) option" where
  "wait_q cfg [] e = (if q_ready e then Some (e, []) else None)"
| "wait_q cfg (ev # evs) e =
     (if q_ready e then Some (e, ev # evs) else wait_q cfg evs (on_event cfg ev e))"

text \<open>\<^verbatim>\<open>self.data_q.get()\<close>: without a queue the attribute access raises.\<close>

definition q_get :: "config \<Rightarrow> event list \<Rightarrow> env \<Rightarrow> obs outcome" where
  "q_get cfg evs e =
     (case data_q e of
        None \<Rightarrow> Raised AttributeError e
      | Some q0 \<Rightarrow>
          (case wait_q cfg evs e of
             None \<Rightarrow> Blocked
           | Some (e1, rest) \<Rightarrow>
               (case data_q e1 of
                  Some (ob # q) \<Rightarrow> Returned ob (e1\<lparr>data_q := Some q\<rparr>) rest
                | _ \<Rightarrow> Blocked)))"

section \<open>The operations\<close>

text \<open>\<^verbatim>\<open>flatten\<close> (lines 148-151); the events are those that arrive during the sleep.\<close>

definition flatten :: "config \<Rightarrow> event list \<Rightarrow> env \<Rightarrow> env" where
  "flatten cfg evs e = deliver cfg evs (e\<lparr>trace := trace e @ [Flatten, Sleep]\<rparr>)"

text \<open>\<^verbatim>\<open>finish_on_next_step\<close> (lines 153-155).\<close>

definition finish_on_next_step :: "env \<Rightarrow> env" where
  "finish_on_next_step e = e\<lparr>finish_flag := True\<rparr>"

text \<open>The \<^verbatim>\<open>info\<close> property (lines 157-169); \<open>None\<close> stands for \<^verbatim>\<open>np.nan\<close>.\<close>

record info =
  info_step :: int
  info_episode_profit :: real
  info_position_desired :: int
  info_position_actual :: int
  info_unrealized_gain :: real
  info_avg_cost :: real
  info_agent_time_last :: "real option"
  info_agent_time_avg :: "real option"

definition get_info :: "gw \<Rightarrow> env \<Rightarrow> info" where
  "get_info g e =
     \<lparr> info_step = step_num e,
       info_episode_profit = episode_profit e,
       info_position_desired = pos_desired e,
       info_position_actual = gw_position g,
       info_unrealized_gain = unrealized_gain e,
       info_avg_cost = cost_or_0 (gw_cost g),
       info_agent_time_last = (if act_time e = [] then None else Some (last (act_time e))),
       info_agent_time_avg =
         (if act_time e = [] then None
          else Some (sum_list (act_time e) / of_nat (length (act_time e)))) \<rparr>"

text \<open>\<^verbatim>\<open>_close\<close> (lines 171-177).\<close>

definition close_env :: "config \<Rightarrow> event list \<Rightarrow> env \<Rightarrow> env" where
  "close_env cfg evs e =
     (let e1 = flatten cfg evs (e\<lparr>done_flag := True\<rparr>)
      in e1\<lparr>trace := trace e1 @ [Disconnect]\<rparr>)"

text \<open>The inputs of \<^verbatim>\<open>_reset\<close>: the events that arrive during the sleep of \<^verbatim>\<open>flatten\<close>,
  those that arrive from then on, and the clock at line 196.\<close>

record reset_in =
  r_evs_sleep :: "event list"
  r_evs_wait :: "event list"
  r_now :: real

text \<open>\<^verbatim>\<open>_reset\<close> (lines 179-197).\<close>

definition reset :: "config \<Rightarrow> reset_in \<Rightarrow> env \<Rightarrow> obs outcome" where
  "reset cfg inp e =
     (let e1 = flatten cfg (r_evs_sleep inp) (e\<lparr>done_flag := True\<rparr>);
          e2 = e1\<lparr>profit := 0, episode_profit := 0, reward := Some 0, unrealized_gain := 0,
                 observation := None, done_flag := False, action := Some (Fin 0),
                 pos_desired := 0, finish_flag := False, step_num := 0,
                 data_q := Some []\<rparr>
      in case q_get cfg (r_evs_wait inp) e2 of
           Blocked \<Rightarrow> Blocked
         | Raised er e3 \<Rightarrow> Raised er e3
         | Returned ob e3 rest \<Rightarrow>
             Returned ob (e3\<lparr>observation := ob, act_start_time := Some (r_now inp)\<rparr>) rest)"

text \<open>\<^verbatim>\<open>deque(maxlen=10).append\<close>: the oldest entries fall out on the left.\<close>

definition deque_append :: "real list \<Rightarrow> real \<Rightarrow> real list" where
  "deque_append xs x = (let ys = xs @ [x] in drop (length ys - 10) ys)"

text \<open>Lines 202-206 of \<^verbatim>\<open>_step\<close>: the latency is recorded and the step is counted, then
  the done state is refused. Before the first reset \<^verbatim>\<open>act_start_time\<close> is \<open>None\<close> and the
  subtraction raises.\<close>

definition step_enter :: "real \<Rightarrow> env \<Rightarrow> (error \<times> env) + env" where
  "step_enter now e =
     (case act_start_time e of
        None \<Rightarrow> Inl (TypeError, e)
      | Some t0 \<Rightarrow>
          (let e1 = e\<lparr>act_time := deque_append (act_time e) (now - t0),
                      step_num := step_num e + 1\<rparr>
           in if done_flag e1 then Inl (ValueError, e1) else Inr e1))"

text \<open>The test of line 210, on the state whose step is already counted.\<close>

definition last_step :: "config \<Rightarrow> env \<Rightarrow> bool" where
  "last_step cfg e =
     (finish_flag e \<or> (case episode_steps cfg of None \<Rightarrow> False | Some n \<Rightarrow> n \<le> step_num e))"

text \<open>\<^verbatim>\<open>np.clip(action, -1, 1)\<close>: \<open>minimum(maximum(a, -1), 1)\<close>; a NaN stays a NaN.\<close>

fun np_clip :: "pyfloat \<Rightarrow> pyfloat" where
  "np_clip (Fin x) = Fin (min (max x (- 1)) 1)"
| "np_clip PosInf = Fin 1"
| "np_clip NegInf = Fin (- 1)"
| "np_clip NaN = NaN"

text \<open>\<^verbatim>\<open>action_space.contains\<close> for the box \<open>[-1, 1]\<close>.\<close>

fun space_contains :: "pyfloat \<Rightarrow> bool" where
  "space_contains (Fin x) = (- 1 \<le> x \<and> x \<le> 1)"
| "space_contains PosInf = False"
| "space_contains NegInf = False"
| "space_contains NaN = False"

text \<open>Python 3's \<^verbatim>\<open>round\<close> of a float to an int: to the nearest integer, a tie to the
  even one.\<close>

definition py_round :: "real \<Rightarrow> int" where
  "py_round x =
     (let f = \<lfloor>x\<rfloor>; d = x - of_int f
      in if d < 1 / 2 then f else if 1 / 2 < d then f + 1
         else if even f then f else f + 1)"

text \<open>The test of line 224.\<close>

definition may_issue :: "config \<Rightarrow> int \<Rightarrow> nat \<Rightarrow> bool" where
  "may_issue cfg position open_orders =
     (\<bar>position\<bar> \<le> max_quantity cfg + 1 \<and> open_orders \<le> 2)"

text \<open>Lines 220-229: cancel, look at the position and at the open orders, and issue the
  target order unless things pile up.\<close>

definition issue_order :: "config \<Rightarrow> gw \<Rightarrow> real \<Rightarrow> env \<Rightarrow> env" where
  "issue_order cfg g x e =
     (let e1 = e\<lparr>trace := trace e @ [CancelAll]\<rparr>;
          position = gw_position g;
          open_orders = gw_open_orders g
      in if may_issue cfg position open_orders then
           (let e2 = e1\<lparr>pos_desired := py_round (x * of_int (max_quantity cfg))\<rparr>
            in e2\<lparr>trace := trace e2 @ [OrderTarget (pos_desired e2)]\<rparr>)
         else e1\<lparr>trace := trace e1 @ [WarnConstipation position open_orders]\<rparr>)"

text \<open>Lines 235-237: the reward is read off the accumulator, which is then zeroed.\<close>

definition settle_reward :: "env \<Rightarrow> env" where
  "settle_reward e =
     (let e1 = e\<lparr>reward := Some (profit e)\<rparr>;
          e2 = e1\<lparr>episode_profit := episode_profit e1 + profit e1\<rparr>
      in e2\<lparr>profit := 0\<rparr>)"

text \<open>The inputs of \<^verbatim>\<open>_step\<close> besides the action: the clock at line 202, the gateway's
  answers at lines 221-222, the events that arrive during the sleep of line 233, those
  that arrive from then on, the gateway's answers at line 241, the clock at line 244.\<close>

record step_in =
  now_start :: real
  gw_issue :: gw
  evs_sleep :: "event list"
  evs_wait :: "event list"
  gw_info :: gw
  now_end :: real

type_synonym step_result = "obs \<times> real option \<times> bool \<times> info"

text \<open>Lines 209-237 of \<^verbatim>\<open>_step\<close>, on the state \<open>step_enter\<close> left: all that happens
  before the caller waits on the queue. The result carries the local \<^verbatim>\<open>done\<close>.\<close>

definition step_issue :: "config \<Rightarrow> step_in \<Rightarrow> pyfloat \<Rightarrow> env \<Rightarrow> (error \<times> env) + (bool \<times> env)" where
  "step_issue cfg inp a e1 =
     (let fin = last_step cfg e1;
          a1 = (if fin then Fin 0 else a);
          e2 = e1\<lparr>action := Some a1\<rparr>;
          c = np_clip a1
      in if \<not> space_contains c then Inl (AssertionError, e2)
         else (case c of
                 Fin x \<Rightarrow>
                   (let e3 = issue_order cfg (gw_issue inp) x e2;
                        e4 = (if fin then deliver cfg (evs_sleep inp) (e3\<lparr>trace := trace e3 @ [Sleep]\<rparr>)
                              else e3)
                    in Inr (fin, settle_reward e4))
               | _ \<Rightarrow> Inl (AssertionError, e2)))"

text \<open>Lines 240-245: only now is \<^verbatim>\<open>self.done\<close> assigned.\<close>

definition step_finish :: "step_in \<Rightarrow> bool \<Rightarrow> obs \<Rightarrow> env \<Rightarrow> step_result \<times> env" where
  "step_finish inp fin ob e =
     (let e1 = e\<lparr>observation := ob, done_flag := fin\<rparr>;
          nfo = get_info (gw_info inp) e1;
          e2 = e1\<lparr>act_start_time := Some (now_end inp)\<rparr>
      in ((observation e2, reward e2, done_flag e2, nfo), e2))"

text \<open>\<^verbatim>\<open>_step\<close> (lines 199-245).\<close>

definition step :: "config \<Rightarrow> step_in \<Rightarrow> pyfloat \<Rightarrow> env \<Rightarrow> step_result outcome" where
  "step cfg inp a e =
     (case step_enter (now_start inp) e of
        Inl (er, e') \<Rightarrow> Raised er e'
      | Inr e1 \<Rightarrow>
          (case step_issue cfg inp a e1 of
             Inl (er, e') \<Rightarrow> Raised er e'
           | Inr (fin, e5) \<Rightarrow>
               (case q_get cfg (evs_wait inp) e5 of
                  Blocked \<Rightarrow> Blocked
                | Raised er e' \<Rightarrow> Raised er e'
                | Returned ob e6 rest \<Rightarrow>
                    (case step_finish inp fin ob e6 of (res, e8) \<Rightarrow> Returned res e8 rest))))"

section \<open>Notions used to state the properties\<close>

text \<open>The requests to the gateway in a trace, without the sleeps and the warnings.\<close>

fun is_request :: "effect \<Rightarrow> bool" where
  "is_request CancelAll = True"
| "is_request (OrderTarget n) = True"
| "is_request Flatten = True"
| "is_request Disconnect = True"
| "is_request Sleep = False"
| "is_request (WarnBehind n) = False"
| "is_request (WarnConstipation p n) = False"
| "is_request WarnAlert = False"

definition requests :: "effect list \<Rightarrow> effect list" where
  "requests tr = filter is_request tr"

text \<open>A bar whose transformed observation is ready, arriving while the gateway is connected.\<close>

fun bar_ready :: "config \<Rightarrow> event \<Rightarrow> bool" where
  "bar_ready cfg (OnBar b g) = (cooked cfg b g \<noteq> None \<and> gw_connected g)"
| "bar_ready cfg (OnOrder p) = False"
| "bar_ready cfg OnAlert = False"

text \<open>Whether some event of a run is such a bar.\<close>

definition feeds :: "config \<Rightarrow> event list \<Rightarrow> bool" where
  "feeds cfg evs = list_ex (bar_ready cfg) evs"

text \<open>No queued item is the "not ready" value.\<close>

definition queue_ok :: "env \<Rightarrow> bool" where
  "queue_ok e = (case data_q e of None \<Rightarrow> True | Some q \<Rightarrow> None \<notin> set q)"

text \<open>A consumer that takes \<open>n\<close> items off the queue, one blocking \<^verbatim>\<open>get\<close> after the other.\<close>

fun get_n :: "config \<Rightarrow> nat \<Rightarrow> event list \<Rightarrow> env \<Rightarrow> obs list outcome" where
  "get_n cfg 0 evs e = Returned [] e evs"
| "get_n cfg (Suc n) evs e =
     (case q_get cfg evs e of
        Blocked \<Rightarrow> Blocked
      | Raised er e' \<Rightarrow> Raised er e'
      | Returned ob e1 rest \<Rightarrow>
          (case get_n cfg n rest e1 of
             Blocked \<Rightarrow> Blocked
           | Raised er e' \<Rightarrow> Raised er e'
           | Returned obs e2 rest' \<Rightarrow> Returned (ob # obs) e2 rest'))"

text \<open>The state with the step counted, on which line 210 decides.\<close>

definition counted :: "env \<Rightarrow> env" where
  "counted e = e\<lparr>step_num := step_num e + 1\<rparr>"

subsection \<open>A concrete environment\<close>

definition cfg10 :: config where
  "cfg10 = \<lparr> max_quantity = 10, episode_steps = None, leverage = 1, xform = default_xform \<rparr>"

definition cfg10_2 :: config where
  "cfg10_2 = \<lparr> max_quantity = 10, episode_steps = Some 2, leverage = 1, xform = default_xform \<rparr>"

definition bar0 :: bar where
  "bar0 = \<lparr> bar_time = 1, bar_bid = 99, bar_bidsize = 5, bar_ask = 101, bar_asksize = 7,
            bar_last = 100, bar_lastsize = 1, bar_lasttime = 1, bar_open = 100, bar_high = 102,
            bar_low = 98, bar_close = 100, bar_vwap = 100, bar_volume = 1000,
            bar_open_interest = 0 \<rparr>"

definition gw_flat :: gw where
  "gw_flat = \<lparr> gw_position = 0, gw_cost = None, gw_connected = True, gw_open_orders = 0 \<rparr>"

text \<open>An environment right after a reset: the first observation taken, the queue empty.\<close>

definition env_active :: env where
  "env_active =
     \<lparr> data_q = Some [], profit = 0, episode_profit = 0, reward = Some 0,
       raw_obs = Some bar0, observation = Some (bar_array bar0), pos_desired = 0,
       done_flag = False, step_num = 0, unrealized_gain = 0, finish_flag = False,
       pos_actual = 0, act_start_time = Some 0, act_time = [], action = Some (Fin 0),
       trace = [Flatten, Sleep] \<rparr>"

text \<open>A step during which a fill, a bar and another fill arrive, and the step after it.\<close>

definition step_in1 :: step_in where
  "step_in1 = \<lparr> now_start = 1, gw_issue = gw_flat, evs_sleep = [],
                evs_wait = [OnOrder 5, OnBar bar0 gw_flat, OnOrder 7],
                gw_info = gw_flat, now_end = 2 \<rparr>"

definition step_in2 :: step_in where
  "step_in2 = \<lparr> now_start = 3, gw_issue = gw_flat, evs_sleep = [OnOrder 1],
                evs_wait = [OnBar bar0 gw_flat],
                gw_info = gw_flat, now_end = 4 \<rparr>"

text \<open>The state and the report that the first of these steps leaves, at action 0.55.\<close>

definition info_after1 :: info where
  "info_after1 =
     \<lparr> info_step = 1, info_episode_profit = 0, info_position_desired = 6,
       info_position_actual = 0, info_unrealized_gain = 0, info_avg_cost = 0,
       info_agent_time_last = Some 1, info_agent_time_avg = Some 1 \<rparr>"

definition env_after1 :: env where
  "env_after1 =
     \<lparr> data_q = Some [], profit = 5, episode_profit = 0, reward = Some 0,
       raw_obs = Some bar0, observation = Some (bar_array bar0), pos_desired = 6,
       done_flag = False, step_num = 1, unrealized_gain = 0, finish_flag = False,
       pos_actual = 0, act_start_time = Some 2, act_time = [1],
       action = Some (Fin (55 / 100)), trace = [Flatten, Sleep, CancelAll, OrderTarget 6] \<rparr>"

text \<open>The same state once the episode is over, and what a further step leaves of it.\<close>

definition env_done :: env where
  "env_done = env_after1\<lparr>done_flag := True\<rparr>"

definition env_done_stepped :: env where
  "env_done_stepped = env_done\<lparr>act_time := [1, 1], step_num := 2\<rparr>"

text \<open>The inputs of a step at which the gateway reports the given position and number of
  open orders.\<close>

definition step_in_at :: "int \<Rightarrow> nat \<Rightarrow> step_in" where
  "step_in_at pos n =
     \<lparr> now_start = 3,
       gw_issue = \<lparr> gw_position = pos, gw_cost = None, gw_connected = True, gw_open_orders = n \<rparr>,
       evs_sleep = [], evs_wait = [OnBar bar0 gw_flat], gw_info = gw_flat, now_end = 4 \<rparr>"

text \<open>What the last step of a two-step episode leaves, whatever its action.\<close>

definition info_last :: info where
  "info_last =
     \<lparr> info_step = 2, info_episode_profit = 6, info_position_desired = 0,
       info_position_actual = 0, info_unrealized_gain = 0, info_avg_cost = 0,
       info_agent_time_last = Some 1, info_agent_time_avg = Some 1 \<rparr>"

definition env_last :: env where
  "env_last =
     \<lparr> data_q = Some [], profit = 0, episode_profit = 6, reward = Some 6,
       raw_obs = Some bar0, observation = Some (bar_array bar0), pos_desired = 0,
       done_flag = True, step_num = 2, unrealized_gain = 0, finish_flag = False,
       pos_actual = 0, act_start_time = Some 4, act_time = [1, 1],
       action = Some (Fin 0),
       trace = [Flatten, Sleep, CancelAll, OrderTarget 6, CancelAll, OrderTarget 0, Sleep] \<rparr>"

text \<open>A reset during which the flatten order is not filled within the sleep: a fill
  arrives once the accounts are cleared, and the first bar still reports 3 contracts.\<close>

definition gw_holding :: gw where
  "gw_holding = \<lparr> gw_position = 3, gw_cost = None, gw_connected = True, gw_open_orders = 1 \<rparr>"

definition reset_in1 :: reset_in where
  "reset_in1 = \<lparr> r_evs_sleep = [OnOrder 2],
                 r_evs_wait = [OnOrder 5, OnBar bar0 gw_holding, OnOrder 7], r_now = 0 \<rparr>"

definition env_reset :: env where
  "env_reset =
     \<lparr> data_q = Some [], profit = 5, episode_profit = 0, reward = Some 0,
       raw_obs = Some bar0, observation = Some (bar_array bar0), pos_desired = 0,
       done_flag = False, step_num = 0, unrealized_gain = 297, finish_flag = False,
       pos_actual = 3, act_start_time = Some 0, act_time = [1], action = Some (Fin 0),
       trace = [Flatten, Sleep, CancelAll, OrderTarget 6, Flatten, Sleep] \<rparr>"

text \<open>A transform that is not ready while the bar's volume is below 1000 (a warm-up), and a
  bar of that kind.\<close>

definition warmup_xform :: "real list \<Rightarrow> real \<Rightarrow> int \<Rightarrow> int \<Rightarrow> obs" where
  "warmup_xform ob ug pos mq = (if ob ! 13 < 1000 then None else Some [ob ! 5, ug])"

definition cfg_warmup :: config where
  "cfg_warmup = \<lparr> max_quantity = 10, episode_steps = None, leverage = 1, xform = warmup_xform \<rparr>"

definition bar_early :: bar where
  "bar_early = bar0\<lparr>bar_volume := 10\<rparr>"

section \<open>The callbacks leave the caller's accounts alone\<close>

lemma on_event_frame:
  "done_flag (on_event cfg ev e) = done_flag e"
  "episode_profit (on_event cfg ev e) = episode_profit e"
  "step_num (on_event cfg ev e) = step_num e"
  "pos_desired (on_event cfg ev e) = pos_desired e"
  "act_time (on_event cfg ev e) = act_time e"
  "reward (on_event cfg ev e) = reward e"
  "finish_flag (on_event cfg ev e) = finish_flag e"
  "action (on_event cfg ev e) = action e"
  "act_start_time (on_event cfg ev e) = act_start_time e"
  by (cases ev; simp add: on_mktdata_def on_order_def on_alert_def put_nowait_def Let_def
        split: option.splits)+

lemma on_event_requests: "requests (trace (on_event cfg ev e)) = requests (trace e)"
  by (cases ev; simp add: on_mktdata_def on_order_def on_alert_def put_nowait_def Let_def
        requests_def split: option.splits)

lemma on_event_profit: "profit (on_event cfg ev e) = profit e + fills [ev]"
  by (cases ev; simp add: on_mktdata_def on_order_def on_alert_def put_nowait_def Let_def
        split: option.splits)

lemma on_event_q_None: "(data_q (on_event cfg ev e) = None) = (data_q e = None)"
  by (cases ev; simp add: on_mktdata_def on_order_def on_alert_def put_nowait_def Let_def
        split: option.splits)

lemma deliver_frame:
  "done_flag (deliver cfg evs e) = done_flag e"
  "episode_profit (deliver cfg evs e) = episode_profit e"
  "step_num (deliver cfg evs e) = step_num e"
  "pos_desired (deliver cfg evs e) = pos_desired e"
  "act_time (deliver cfg evs e) = act_time e"
  "reward (deliver cfg evs e) = reward e"
  "finish_flag (deliver cfg evs e) = finish_flag e"
  "action (deliver cfg evs e) = action e"
  "act_start_time (deliver cfg evs e) = act_start_time e"
  by (induction evs arbitrary: e; simp add: on_event_frame)+

lemma deliver_requests: "requests (trace (deliver cfg evs e)) = requests (trace e)"
  by (induction evs arbitrary: e) (simp_all add: on_event_requests)

lemma deliver_q_None: "(data_q (deliver cfg evs e) = None) = (data_q e = None)"
  by (induction evs arbitrary: e) (simp_all add: on_event_q_None)

lemma fills_append: "fills (xs @ ys) = fills xs + fills ys"
  by (induction xs rule: fills.induct) simp_all

lemma deliver_profit: "profit (deliver cfg evs e) = profit e + fills evs"
proof (induction evs arbitrary: e)
  case Nil
  show ?case by simp
next
  case (Cons ev evs)
  have "fills (ev # evs) = fills [ev] + fills evs"
    using fills_append [of "[ev]" evs] by simp
  then show ?case by (simp add: Cons.IH on_event_profit)
qed

lemma deliver_append: "deliver cfg (xs @ ys) e = deliver cfg ys (deliver cfg xs e)"
  by (induction xs arbitrary: e) simp_all

section \<open>Waiting on the queue\<close>

lemma wait_q_Some:
  "wait_q cfg evs e = Some (e1, rest) \<Longrightarrow>
     \<exists>used. evs = used @ rest \<and> e1 = deliver cfg used e \<and> q_ready e1"
proof (induction evs arbitrary: e)
  case Nil
  then show ?case by (simp split: if_splits)
next
  case (Cons ev evs)
  show ?case
  proof (cases "q_ready e")
    case True
    with Cons.prems show ?thesis by simp
  next
    case False
    with Cons.prems have "wait_q cfg evs (on_event cfg ev e) = Some (e1, rest)" by simp
    from Cons.IH [OF this] obtain used where
      u: "evs = used @ rest" "e1 = deliver cfg used (on_event cfg ev e)" "q_ready e1" by blast
    have "ev # evs = (ev # used) @ rest \<and> e1 = deliver cfg (ev # used) e \<and> q_ready e1"
      using u by simp
    then show ?thesis by blast
  qed
qed

lemma q_get_Returned:
  "q_get cfg evs e = Returned ob e' rest \<Longrightarrow>
     \<exists>used q. evs = used @ rest \<and> data_q (deliver cfg used e) = Some (ob # q) \<and>
       e' = (deliver cfg used e)\<lparr>data_q := Some q\<rparr>"
  unfolding q_get_def
  by (auto split: option.splits list.splits dest!: wait_q_Some)

text \<open>A ready bar that arrives while the environment is not done lands in the queue.\<close>

lemma on_event_enqueues:
  "bar_ready cfg ev \<Longrightarrow> \<not> done_flag e \<Longrightarrow> data_q e \<noteq> None \<Longrightarrow> q_ready (on_event cfg ev e)"
  by (cases ev) (auto simp: on_mktdata_def put_nowait_def q_ready_def Let_def)

lemma wait_q_feeds:
  "\<not> done_flag e \<Longrightarrow> data_q e \<noteq> None \<Longrightarrow> q_ready e \<or> feeds cfg evs \<Longrightarrow>
     wait_q cfg evs e \<noteq> None"
proof (induction evs arbitrary: e)
  case Nil
  then show ?case by (simp add: feeds_def)
next
  case (Cons ev evs)
  show ?case
  proof (cases "q_ready e")
    case True
    then show ?thesis by simp
  next
    case False
    have nd: "\<not> done_flag (on_event cfg ev e)" "data_q (on_event cfg ev e) \<noteq> None"
      using Cons.prems by (simp_all add: on_event_frame on_event_q_None)
    have "q_ready (on_event cfg ev e) \<or> feeds cfg evs"
    proof (cases "bar_ready cfg ev")
      case True
      then show ?thesis using Cons.prems on_event_enqueues by blast
    next
      case nr: False
      with Cons.prems False show ?thesis by (simp add: feeds_def)
    qed
    from Cons.IH [OF nd this] False show ?thesis by simp
  qed
qed

lemma q_get_feeds:
  assumes "\<not> done_flag e" "data_q e \<noteq> None" "q_ready e \<or> feeds cfg evs"
  shows "\<exists>ob e' rest. q_get cfg evs e = Returned ob e' rest"
proof -
  from wait_q_feeds [OF assms] obtain e1 rest where w: "wait_q cfg evs e = Some (e1, rest)"
    by auto
  from wait_q_Some [OF w] have "q_ready e1" by blast
  then obtain ob q where "data_q e1 = Some (ob # q)"
    by (cases "data_q e1") (auto simp: q_ready_def neq_Nil_conv)
  with w assms(2) show ?thesis by (auto simp: q_get_def)
qed

section \<open>The phases of a step\<close>

lemma step_enter_Inr:
  "step_enter now e = Inr e1 \<Longrightarrow>
     \<exists>t0. act_start_time e = Some t0 \<and> \<not> done_flag e \<and>
       e1 = e\<lparr>act_time := deque_append (act_time e) (now - t0), step_num := step_num e + 1\<rparr>"
  by (auto simp: step_enter_def Let_def split: option.splits if_splits)

lemma last_step_counted:
  "last_step cfg (e\<lparr>act_time := ts, step_num := step_num e + 1\<rparr>) = last_step cfg (counted e)"
  by (simp add: last_step_def counted_def split: option.splits)

lemma issue_order_frame:
  "profit (issue_order cfg g x e) = profit e"
  "episode_profit (issue_order cfg g x e) = episode_profit e"
  "done_flag (issue_order cfg g x e) = done_flag e"
  "data_q (issue_order cfg g x e) = data_q e"
  "step_num (issue_order cfg g x e) = step_num e"
  "act_time (issue_order cfg g x e) = act_time e"
  "action (issue_order cfg g x e) = action e"
  "finish_flag (issue_order cfg g x e) = finish_flag e"
  "reward (issue_order cfg g x e) = reward e"
  by (simp_all add: issue_order_def Let_def)

lemma issue_order_pos_desired:
  "pos_desired (issue_order cfg g x e) =
     (if may_issue cfg (gw_position g) (gw_open_orders g)
      then py_round (x * of_int (max_quantity cfg)) else pos_desired e)"
  by (simp add: issue_order_def Let_def)

lemma issue_order_requests:
  "requests (trace (issue_order cfg g x e)) =
     requests (trace e) @ CancelAll #
       (if may_issue cfg (gw_position g) (gw_open_orders g)
        then [OrderTarget (py_round (x * of_int (max_quantity cfg)))] else [])"
  by (simp add: issue_order_def Let_def requests_def)

lemma issue_order_warns:
  "\<not> may_issue cfg (gw_position g) (gw_open_orders g) \<Longrightarrow>
     trace (issue_order cfg g x e) =
       trace e @ [CancelAll, WarnConstipation (gw_position g) (gw_open_orders g)]"
  by (simp add: issue_order_def Let_def)

lemma settle_reward_fields:
  "profit (settle_reward e) = 0"
  "reward (settle_reward e) = Some (profit e)"
  "episode_profit (settle_reward e) = episode_profit e + profit e"
  "done_flag (settle_reward e) = done_flag e"
  "data_q (settle_reward e) = data_q e"
  "step_num (settle_reward e) = step_num e"
  "act_time (settle_reward e) = act_time e"
  "action (settle_reward e) = action e"
  "finish_flag (settle_reward e) = finish_flag e"
  "pos_desired (settle_reward e) = pos_desired e"
  "trace (settle_reward e) = trace e"
  by (simp_all add: settle_reward_def Let_def)

text \<open>The state in which the caller starts to wait, when the checks have passed: \<open>x\<close> is
  the clipped action, \<open>fin\<close> the local \<^verbatim>\<open>done\<close>.\<close>

lemma step_issue_Inr:
  assumes "step_issue cfg inp a e1 = Inr (fin, e5)"
  shows "fin = last_step cfg e1 \<and>
     (\<exists>x. np_clip (if fin then Fin 0 else a) = Fin x \<and> - 1 \<le> x \<and> x \<le> 1 \<and>
        (\<exists>e3. e3 = issue_order cfg (gw_issue inp) x (e1\<lparr>action := Some (if fin then Fin 0 else a)\<rparr>) \<and>
           e5 = settle_reward
                  (if fin then deliver cfg (evs_sleep inp) (e3\<lparr>trace := trace e3 @ [Sleep]\<rparr>)
                   else e3)))"
proof -
  let ?a1 = "if last_step cfg e1 then Fin 0 else a"
  from assms obtain x where c: "np_clip ?a1 = Fin x" and sc: "space_contains (np_clip ?a1)"
    by (cases "np_clip ?a1") (auto simp: step_issue_def Let_def split: if_splits)
  from c sc have bounds: "- 1 \<le> x" "x \<le> 1" by simp_all
  from assms c sc have "fin = last_step cfg e1" 
    by (auto simp: step_issue_def Let_def split: if_splits)
  moreover from assms c sc have
    "e5 = settle_reward
            (if last_step cfg e1
             then deliver cfg (evs_sleep inp)
                    ((issue_order cfg (gw_issue inp) x (e1\<lparr>action := Some ?a1\<rparr>))
                       \<lparr>trace := trace (issue_order cfg (gw_issue inp) x (e1\<lparr>action := Some ?a1\<rparr>)) @ [Sleep]\<rparr>)
             else issue_order cfg (gw_issue inp) x (e1\<lparr>action := Some ?a1\<rparr>))"
    by (auto simp: step_issue_def Let_def split: if_splits)
  ultimately show ?thesis using c bounds by auto
qed

lemma step_Returned:
  assumes "step cfg inp a e = Returned res e' rest"
  shows "\<exists>e1 fin e5 ob e6. step_enter (now_start inp) e = Inr e1 \<and>
           step_issue cfg inp a e1 = Inr (fin, e5) \<and>
           q_get cfg (evs_wait inp) e5 = Returned ob e6 rest \<and>
           step_finish inp fin ob e6 = (res, e')"
  using assms unfolding step_def
  by (auto split: sum.splits prod.splits outcome.splits)

text \<open>What the fields are when the caller starts to wait.\<close>

lemma step_issue_fields:
  assumes "step_issue cfg inp a e1 = Inr (fin, e5)"
  shows "profit e5 = 0"
    and "reward e5 = Some (profit e1 + fills (if fin then evs_sleep inp else []))"
    and "episode_profit e5 = episode_profit e1 + (profit e1 + fills (if fin then evs_sleep inp else []))"
    and "done_flag e5 = done_flag e1"
    and "(data_q e5 = None) = (data_q e1 = None)"
    and "step_num e5 = step_num e1"
    and "act_time e5 = act_time e1"
    and "finish_flag e5 = finish_flag e1"
    and "action e5 = Some (if fin then Fin 0 else a)"
proof -
  from step_issue_Inr [OF assms] obtain x e3 where
    e3: "e3 = issue_order cfg (gw_issue inp) x (e1\<lparr>action := Some (if fin then Fin 0 else a)\<rparr>)"
    and e5: "e5 = settle_reward
               (if fin then deliver cfg (evs_sleep inp) (e3\<lparr>trace := trace e3 @ [Sleep]\<rparr>) else e3)"
    by blast
  show "profit e5 = 0" by (simp add: e5 settle_reward_fields)
  show "reward e5 = Some (profit e1 + fills (if fin then evs_sleep inp else []))"
    by (simp add: e5 e3 settle_reward_fields deliver_profit issue_order_frame)
  show "episode_profit e5 = episode_profit e1 + (profit e1 + fills (if fin then evs_sleep inp else []))"
    by (simp add: e5 e3 settle_reward_fields deliver_profit deliver_frame issue_order_frame)
  show "done_flag e5 = done_flag e1"
    by (simp add: e5 e3 settle_reward_fields deliver_frame issue_order_frame)
  show "(data_q e5 = None) = (data_q e1 = None)"
    by (simp add: e5 e3 settle_reward_fields deliver_q_None issue_order_frame)
  show "step_num e5 = step_num e1"
    by (simp add: e5 e3 settle_reward_fields deliver_frame issue_order_frame)
  show "act_time e5 = act_time e1"
    by (simp add: e5 e3 settle_reward_fields deliver_frame issue_order_frame)
  show "finish_flag e5 = finish_flag e1"
    by (simp add: e5 e3 settle_reward_fields deliver_frame issue_order_frame)
  show "action e5 = Some (if fin then Fin 0 else a)"
    by (simp add: e5 e3 settle_reward_fields deliver_frame issue_order_frame)
qed

lemma step_issue_pos_desired:
  assumes "step_issue cfg inp a e1 = Inr (fin, e5)" "np_clip (if fin then Fin 0 else a) = Fin x"
  shows "pos_desired e5 =
     (if may_issue cfg (gw_position (gw_issue inp)) (gw_open_orders (gw_issue inp))
      then py_round (x * of_int (max_quantity cfg)) else pos_desired e1)"
    and "requests (trace e5) =
     requests (trace e1) @ CancelAll #
       (if may_issue cfg (gw_position (gw_issue inp)) (gw_open_orders (gw_issue inp))
        then [OrderTarget (py_round (x * of_int (max_quantity cfg)))] else [])"
proof -
  from step_issue_Inr [OF assms(1)] assms(2) obtain e3 where
    e3: "e3 = issue_order cfg (gw_issue inp) x (e1\<lparr>action := Some (if fin then Fin 0 else a)\<rparr>)"
    and e5: "e5 = settle_reward
               (if fin then deliver cfg (evs_sleep inp) (e3\<lparr>trace := trace e3 @ [Sleep]\<rparr>) else e3)"
    by auto
  show "pos_desired e5 =
     (if may_issue cfg (gw_position (gw_issue inp)) (gw_open_orders (gw_issue inp))
      then py_round (x * of_int (max_quantity cfg)) else pos_desired e1)"
    by (simp add: e5 e3 settle_reward_fields deliver_frame issue_order_pos_desired)
  have "requests (trace (e3\<lparr>trace := trace e3 @ [Sleep]\<rparr>)) = requests (trace e3)"
    by (simp add: requests_def)
  then have "requests (trace e5) = requests (trace e3)"
    by (simp add: e5 settle_reward_fields deliver_requests)
  then show "requests (trace e5) =
     requests (trace e1) @ CancelAll #
       (if may_issue cfg (gw_position (gw_issue inp)) (gw_open_orders (gw_issue inp))
        then [OrderTarget (py_round (x * of_int (max_quantity cfg)))] else [])"
    by (simp add: e3 issue_order_requests)
qed

text \<open>The checks pass for every action but a NaN, and for every action on the last step.\<close>

lemma step_issue_passes:
  assumes "last_step cfg e1 \<or> a \<noteq> NaN"
  shows "\<exists>e5. step_issue cfg inp a e1 = Inr (last_step cfg e1, e5)"
proof -
  let ?a1 = "if last_step cfg e1 then Fin 0 else a"
  from assms have "?a1 \<noteq> NaN" by auto
  then obtain x where c: "np_clip ?a1 = Fin x" "- 1 \<le> x" "x \<le> 1"
    by (cases ?a1) (auto split: if_splits)
  then show ?thesis by (simp add: step_issue_def Let_def)
qed

lemma step_finish_fields:
  assumes "step_finish inp fin ob e6 = (res, e')"
  shows "res = (ob, reward e6, fin, get_info (gw_info inp) (e6\<lparr>observation := ob, done_flag := fin\<rparr>))"
    and "e' = e6\<lparr>observation := ob, done_flag := fin, act_start_time := Some (now_end inp)\<rparr>"
  using assms by (auto simp: step_finish_def Let_def)

section \<open>What a returning step did\<close>

lemma step_accounts:
  assumes "step cfg inp a e = Returned (ob, r, d, nfo) e' rest"
  shows "\<exists>e1 e5 used q.
      step_enter (now_start inp) e = Inr e1 \<and> step_issue cfg inp a e1 = Inr (d, e5) \<and>
      q_get cfg (evs_wait inp) e5 = Returned ob ((deliver cfg used e5)\<lparr>data_q := Some q\<rparr>) rest \<and>
      evs_wait inp = used @ rest \<and>
      e' = (deliver cfg used e5)\<lparr>data_q := Some q, observation := ob, done_flag := d,
              act_start_time := Some (now_end inp)\<rparr> \<and>
      r = reward e5"
proof -
  from step_Returned [OF assms] obtain e1 fin e5 ob' e6 where
    en: "step_enter (now_start inp) e = Inr e1" and
    iss: "step_issue cfg inp a e1 = Inr (fin, e5)" and
    qg: "q_get cfg (evs_wait inp) e5 = Returned ob' e6 rest" and
    fi: "step_finish inp fin ob' e6 = ((ob, r, d, nfo), e')"
    by blast
  from step_finish_fields [OF fi] have
    res: "ob = ob'" "r = reward e6" "d = fin" and
    e': "e' = e6\<lparr>observation := ob', done_flag := fin, act_start_time := Some (now_end inp)\<rparr>"
    by simp_all
  from q_get_Returned [OF qg] obtain used q where
    u: "evs_wait inp = used @ rest" and
    e6: "e6 = (deliver cfg used e5)\<lparr>data_q := Some q\<rparr>"
    by blast
  have "r = reward e5" by (simp add: res e6 deliver_frame)
  with en iss qg u e' e6 res show ?thesis by auto
qed


lemma demo_configs_valid: "valid_config cfg10" "valid_config cfg10_2" "valid_config cfg_warmup"
  by (simp_all add: valid_config_def MAX_INSTRUMENT_QUANTITY_def cfg10_def cfg10_2_def
      cfg_warmup_def)

lemmas step_eval =
  step_def step_enter_def step_issue_def step_finish_def q_get_def q_ready_def
  last_step_def issue_order_def may_issue_def settle_reward_def on_mktdata_def on_order_def
  on_alert_def put_nowait_def qsize_def cooked_def unrealized_def cost_or_0_def
  default_xform_def deque_append_def get_info_def py_round_def Let_def

lemmas demo_defs =
  cfg10_def cfg10_2_def step_in1_def step_in2_def env_active_def env_after1_def
  info_after1_def gw_flat_def



section \<open>The reward of a step\<close>



section \<open>Fills that arrive while a step waits\<close>



section \<open>When a step returns, and in which state\<close>

lemma on_event_q_ready: "q_ready e \<Longrightarrow> q_ready (on_event cfg ev e)"
  by (cases ev)
     (auto simp: on_mktdata_def on_order_def on_alert_def put_nowait_def q_ready_def Let_def
        split: option.splits)

lemma deliver_q_ready: "q_ready e \<Longrightarrow> q_ready (deliver cfg evs e)"
  by (induction evs arbitrary: e) (simp_all add: on_event_q_ready)

lemma feeds_append: "feeds cfg (xs @ ys) = (feeds cfg xs \<or> feeds cfg ys)"
  by (simp add: feeds_def)

lemma deliver_feeds:
  "feeds cfg evs \<Longrightarrow> \<not> done_flag e \<Longrightarrow> data_q e \<noteq> None \<Longrightarrow> q_ready (deliver cfg evs e)"
proof (induction evs arbitrary: e)
  case Nil
  then show ?case by (simp add: feeds_def)
next
  case (Cons ev evs)
  show ?case
  proof (cases "bar_ready cfg ev")
    case True
    with Cons.prems have "q_ready (on_event cfg ev e)" by (simp add: on_event_enqueues)
    then show ?thesis by (simp add: deliver_q_ready)
  next
    case False
    with Cons.prems have "feeds cfg evs" by (simp add: feeds_def)
    moreover have "\<not> done_flag (on_event cfg ev e)" "data_q (on_event cfg ev e) \<noteq> None"
      using Cons.prems by (simp_all add: on_event_frame on_event_q_None)
    ultimately show ?thesis using Cons.IH by simp
  qed
qed

lemma step_issue_q_ready:
  assumes iss: "step_issue cfg inp a e1 = Inr (fin, e5)"
    and nd: "\<not> done_flag e1" and q: "data_q e1 \<noteq> None"
    and rdy: "q_ready e1 \<or> (fin \<and> feeds cfg (evs_sleep inp))"
  shows "q_ready e5"
proof -
  from step_issue_Inr [OF iss] obtain x e3 where
    e3: "e3 = issue_order cfg (gw_issue inp) x (e1\<lparr>action := Some (if fin then Fin 0 else a)\<rparr>)"
    and e5: "e5 = settle_reward
               (if fin then deliver cfg (evs_sleep inp) (e3\<lparr>trace := trace e3 @ [Sleep]\<rparr>) else e3)"
    by blast
  have q3: "data_q e3 = data_q e1" and d3: "done_flag e3 = done_flag e1"
    by (simp_all add: e3 issue_order_frame)
  have s: "q_ready (settle_reward y) = q_ready y" for y
    by (simp add: q_ready_def settle_reward_fields)
  have t: "q_ready (y\<lparr>trace := tr\<rparr>) = q_ready y" for y tr
    by (simp add: q_ready_def)
  from rdy show ?thesis
  proof
    assume "q_ready e1"
    then have "q_ready e3" using q3 by (simp add: q_ready_def)
    then show ?thesis by (simp add: e5 s t deliver_q_ready)
  next
    assume f: "fin \<and> feeds cfg (evs_sleep inp)"
    then have "q_ready (deliver cfg (evs_sleep inp) (e3\<lparr>trace := trace e3 @ [Sleep]\<rparr>))"
      using nd q q3 d3 by (intro deliver_feeds) simp_all
    with f show ?thesis by (simp add: e5 s)
  qed
qed

text \<open>In an active episode a step returns as soon as an observation is there or arrives,
  for every action but a NaN; the last step returns for every action.\<close>

lemma step_returns:
  assumes nd: "\<not> done_flag e" and t0: "act_start_time e = Some t0" and q: "data_q e \<noteq> None"
    and ok: "last_step cfg (counted e) \<or> a \<noteq> NaN"
    and feed: "q_ready e \<or>
       feeds cfg ((if last_step cfg (counted e) then evs_sleep inp else []) @ evs_wait inp)"
  shows "\<exists>ob r nfo e' rest.
     step cfg inp a e = Returned (ob, r, last_step cfg (counted e), nfo) e' rest"
proof -
  let ?e1 = "e\<lparr>act_time := deque_append (act_time e) (now_start inp - t0),
               step_num := step_num e + 1\<rparr>"
  have en: "step_enter (now_start inp) e = Inr ?e1"
    using nd t0 by (simp add: step_enter_def Let_def)
  have l: "last_step cfg ?e1 = last_step cfg (counted e)"
    by (rule last_step_counted)
  from step_issue_passes [of cfg ?e1 a inp] ok l obtain e5 where
    iss: "step_issue cfg inp a ?e1 = Inr (last_step cfg (counted e), e5)"
    by auto
  have nd5: "\<not> done_flag e5" using step_issue_fields(4) [OF iss] nd by simp
  have q5: "data_q e5 \<noteq> None" using step_issue_fields(5) [OF iss] q by simp
  have "q_ready e5 \<or> feeds cfg (evs_wait inp)"
  proof (cases "feeds cfg (evs_wait inp)")
    case True
    then show ?thesis by simp
  next
    case False
    with feed have "q_ready e \<or> (last_step cfg (counted e) \<and> feeds cfg (evs_sleep inp))"
      by (auto simp: feeds_append feeds_def split: if_splits)
    then have "q_ready ?e1 \<or> (last_step cfg (counted e) \<and> feeds cfg (evs_sleep inp))"
      by (simp add: q_ready_def)
    from step_issue_q_ready [OF iss _ _ this] nd q show ?thesis by simp
  qed
  from q_get_feeds [OF nd5 q5 this] obtain ob e6 rest where
    qg: "q_get cfg (evs_wait inp) e5 = Returned ob e6 rest"
    by blast
  show ?thesis
    using en iss qg by (simp add: step_def step_finish_def Let_def)
qed

lemma step_state:
  assumes "step cfg inp a e = Returned (ob, r, d, nfo) e' rest"
  shows "\<exists>t0 x. act_start_time e = Some t0 \<and> \<not> done_flag e \<and>
      d = last_step cfg (counted e) \<and>
      np_clip (if d then Fin 0 else a) = Fin x \<and> - 1 \<le> x \<and> x \<le> 1 \<and>
      action e' = Some (if d then Fin 0 else a) \<and>
      pos_desired e' =
        (if may_issue cfg (gw_position (gw_issue inp)) (gw_open_orders (gw_issue inp))
         then py_round (x * of_int (max_quantity cfg)) else pos_desired e) \<and>
      requests (trace e') =
        requests (trace e) @ CancelAll #
          (if may_issue cfg (gw_position (gw_issue inp)) (gw_open_orders (gw_issue inp))
           then [OrderTarget (py_round (x * of_int (max_quantity cfg)))] else []) \<and>
      step_num e' = step_num e + 1 \<and>
      act_time e' = deque_append (act_time e) (now_start inp - t0) \<and>
      done_flag e' = d \<and> finish_flag e' = finish_flag e"
proof -
  from step_accounts [OF assms] obtain e1 e5 used q where
    en: "step_enter (now_start inp) e = Inr e1" and
    iss: "step_issue cfg inp a e1 = Inr (d, e5)" and
    e': "e' = (deliver cfg used e5)\<lparr>data_q := Some q, observation := ob, done_flag := d,
              act_start_time := Some (now_end inp)\<rparr>"
    by blast
  from step_enter_Inr [OF en] obtain t0 where
    t0: "act_start_time e = Some t0" and nd: "\<not> done_flag e" and
    e1: "e1 = e\<lparr>act_time := deque_append (act_time e) (now_start inp - t0),
               step_num := step_num e + 1\<rparr>"
    by blast
  from step_issue_Inr [OF iss] obtain x where
    d: "d = last_step cfg e1" and
    x: "np_clip (if d then Fin 0 else a) = Fin x" "- 1 \<le> x" "x \<le> 1"
    by blast
  have dl: "d = last_step cfg (counted e)"
    using d by (simp add: e1 last_step_counted)
  note f = step_issue_fields [OF iss]
  note g = step_issue_pos_desired [OF iss x(1)]
  have "action e' = Some (if d then Fin 0 else a)"
    using f(9) by (simp add: e' deliver_frame)
  moreover have "pos_desired e' =
        (if may_issue cfg (gw_position (gw_issue inp)) (gw_open_orders (gw_issue inp))
         then py_round (x * of_int (max_quantity cfg)) else pos_desired e)"
    using g(1) by (simp add: e' deliver_frame e1)
  moreover have "requests (trace e') =
        requests (trace e) @ CancelAll #
          (if may_issue cfg (gw_position (gw_issue inp)) (gw_open_orders (gw_issue inp))
           then [OrderTarget (py_round (x * of_int (max_quantity cfg)))] else [])"
    using g(2) by (simp add: e' deliver_requests e1)
  moreover have "step_num e' = step_num e + 1"
    using f(6) by (simp add: e' deliver_frame e1)
  moreover have "act_time e' = deque_append (act_time e) (now_start inp - t0)"
    using f(7) by (simp add: e' deliver_frame e1)
  moreover have "done_flag e' = d" by (simp add: e')
  moreover have "finish_flag e' = finish_flag e"
    using f(8) by (simp add: e' deliver_frame e1)
  ultimately show ?thesis using t0 nd dl x by blast
qed

section \<open>A step in the done state\<close>

text \<open>
  Claim C2 as stated, refuted: a step in the done state raises, but by then it has
  counted itself and recorded its latency. After an episode with one step and one
  latency entry, the refused call leaves the step counter at 2 and two entries in the
  history.
\<close>

theorem step_while_done_counterexample:
  "done_flag env_done \<and>
   step cfg10 step_in2 (Fin 0) env_done = Raised ValueError env_done_stepped \<and>
   step_num env_done = 1 \<and> step_num env_done_stepped = 2 \<and>
   act_time env_done = [1] \<and> act_time env_done_stepped = [1, 1]"
  by (simp add: step_def step_enter_def deque_append_def Let_def env_done_def
      env_done_stepped_def env_after1_def step_in2_def)

text \<open>
  Claim C2, amended. A step in the done state always raises. It leaves the per-step
  profit, the episode's profit, the desired position, the last reward, the queue, the done
  flag and the trace of requests as they were. Before the first reset it raises on the
  missing clock and changes nothing at all; after a reset it raises the "done" error
  once it has appended one latency to the history and added one to the step counter.
\<close>

theorem step_while_done_raises:
  assumes "done_flag e"
  shows "\<exists>er e'. step cfg inp a e = Raised er e' \<and>
      profit e' = profit e \<and> episode_profit e' = episode_profit e \<and>
      pos_desired e' = pos_desired e \<and> reward e' = reward e \<and>
      data_q e' = data_q e \<and> done_flag e' \<and> trace e' = trace e \<and>
      (case act_start_time e of
         None \<Rightarrow> er = TypeError \<and> e' = e
       | Some t0 \<Rightarrow>
           er = ValueError \<and> step_num e' = step_num e + 1 \<and>
           act_time e' = deque_append (act_time e) (now_start inp - t0))"
  using assms
  by (cases "act_start_time e") (simp_all add: step_def step_enter_def Let_def)

theorem step_while_done_raises_witness:
  "done_flag env_done \<and>
   (\<exists>er e'. step cfg10 step_in2 (Fin 0) env_done = Raised er e' \<and>
      profit e' = profit env_done \<and> episode_profit e' = episode_profit env_done \<and>
      pos_desired e' = pos_desired env_done \<and> reward e' = reward env_done \<and>
      data_q e' = data_q env_done \<and> done_flag e' \<and> trace e' = trace env_done \<and>
      er = ValueError \<and> step_num e' = 2 \<and> act_time e' = [1, 1]) \<and>
   done_flag (init_env 0) \<and>
   step cfg10 step_in2 (Fin 0) (init_env 0) = Raised TypeError (init_env 0)"
proof -
  have d: "done_flag env_done" "done_flag (init_env 0)"
    by (simp_all add: env_done_def init_env_def)
  have t: "act_start_time env_done = Some 2" "step_num env_done = 1" "act_time env_done = [1]"
    "now_start step_in2 = 3" "act_start_time (init_env 0) = None"
    by (simp_all add: env_done_def env_after1_def step_in2_def init_env_def)
  from step_while_done_raises [OF d(1), of cfg10 step_in2 "Fin 0"]
  have one: "\<exists>er e'. step cfg10 step_in2 (Fin 0) env_done = Raised er e' \<and>
      profit e' = profit env_done \<and> episode_profit e' = episode_profit env_done \<and>
      pos_desired e' = pos_desired env_done \<and> reward e' = reward env_done \<and>
      data_q e' = data_q env_done \<and> done_flag e' \<and> trace e' = trace env_done \<and>
      er = ValueError \<and> step_num e' = 2 \<and> act_time e' = [1, 1]"
    by (simp add: t deque_append_def)
  from step_while_done_raises [OF d(2), of cfg10 step_in2 "Fin 0"]
  have two: "step cfg10 step_in2 (Fin 0) (init_env 0) = Raised TypeError (init_env 0)"
    by (auto simp: t)
  from d one two show ?thesis by blast
qed

section \<open>The last step of an episode\<close>

lemma finish_on_next_step_sets:
  "finish_flag (deliver cfg evs (finish_on_next_step e))"
  "done_flag (deliver cfg evs (finish_on_next_step e)) = done_flag e"
  "act_start_time (deliver cfg evs (finish_on_next_step e)) = act_start_time e"
  "step_num (deliver cfg evs (finish_on_next_step e)) = step_num e"
  by (simp_all add: deliver_frame finish_on_next_step_def)

lemma py_round_0: "py_round 0 = 0"
  by (simp add: py_round_def)


lemma demo_feeds: "feeds cfg10 [OnBar bar0 gw_flat]" "feeds cfg10_2 [OnBar bar0 gw_flat]"
  by (simp_all add: feeds_def cooked_def cfg10_def cfg10_2_def default_xform_def gw_flat_def)


section \<open>The done flag during a step\<close>

text \<open>
  Claim C4. In a step that passes its checks, the done flag is still false in the state
  in which the caller starts to wait on the queue, also on the last step, and it stays
  false under every run of events delivered during the wait, so that a ready bar that
  arrives then is queued and the step returns. The flag takes the value of the local
  \<^verbatim>\<open>done\<close> only in the part of the step that follows the wait.
\<close>

theorem done_flag_assigned_after_dequeue:
  assumes en: "step_enter (now_start inp) e = Inr e1"
    and iss: "step_issue cfg inp a e1 = Inr (fin, e5)"
  shows "\<not> done_flag e5 \<and>
     (\<forall>used. \<not> done_flag (deliver cfg used e5)) \<and>
     (\<forall>ob e6. done_flag (snd (step_finish inp fin ob e6)) = fin) \<and>
     (\<forall>res e' rest. step cfg inp a e = Returned res e' rest \<longrightarrow>
        (\<exists>ob e6. q_get cfg (evs_wait inp) e5 = Returned ob e6 rest \<and> \<not> done_flag e6 \<and>
           step_finish inp fin ob e6 = (res, e') \<and> done_flag e' = fin)) \<and>
     (data_q e \<noteq> None \<and> feeds cfg (evs_wait inp) \<longrightarrow>
        (\<exists>res e' rest. step cfg inp a e = Returned res e' rest \<and> done_flag e' = fin))"
proof -
  from step_enter_Inr [OF en] obtain t0 where
    nd: "\<not> done_flag e" and
    e1: "e1 = e\<lparr>act_time := deque_append (act_time e) (now_start inp - t0),
               step_num := step_num e + 1\<rparr>"
    by blast
  have nd5: "\<not> done_flag e5"
    using step_issue_fields(4) [OF iss] nd by (simp add: e1)
  have during: "\<forall>used. \<not> done_flag (deliver cfg used e5)"
    using nd5 by (simp add: deliver_frame)
  have after: "\<forall>ob e6. done_flag (snd (step_finish inp fin ob e6)) = fin"
    by (simp add: step_finish_def Let_def)
  have ret: "\<exists>ob e6. q_get cfg (evs_wait inp) e5 = Returned ob e6 rest \<and> \<not> done_flag e6 \<and>
           step_finish inp fin ob e6 = (res, e') \<and> done_flag e' = fin"
    if s: "step cfg inp a e = Returned res e' rest" for res e' rest
  proof -
    from s en iss obtain ob e6 where
      qg: "q_get cfg (evs_wait inp) e5 = Returned ob e6 rest" and
      fi: "step_finish inp fin ob e6 = (res, e')"
      by (auto simp: step_def split: outcome.splits prod.splits)
    from q_get_Returned [OF qg] during have "\<not> done_flag e6" by auto
    moreover from fi after have "done_flag e' = fin" by (metis snd_conv)
    ultimately show ?thesis using qg fi by blast
  qed
  have live: "\<exists>res e' rest. step cfg inp a e = Returned res e' rest \<and> done_flag e' = fin"
    if q: "data_q e \<noteq> None" and f: "feeds cfg (evs_wait inp)"
  proof -
    have q5: "data_q e5 \<noteq> None"
      using step_issue_fields(5) [OF iss] q by (simp add: e1)
    from q_get_feeds [OF nd5 q5, of cfg "evs_wait inp"] f obtain ob e6 rest where
      qg: "q_get cfg (evs_wait inp) e5 = Returned ob e6 rest"
      by blast
    obtain res e' where fi: "step_finish inp fin ob e6 = (res, e')"
      by (cases "step_finish inp fin ob e6")
    have "step cfg inp a e = Returned res e' rest"
      using en iss qg fi by (simp add: step_def)
    moreover from fi after have "done_flag e' = fin" by (metis snd_conv)
    ultimately show ?thesis by blast
  qed
  from nd5 during after ret live show ?thesis by blast
qed

lemma last_step_demo:
  "\<exists>e1 e5. step_enter (now_start step_in2) env_after1 = Inr e1 \<and>
     step_issue cfg10_2 step_in2 (Fin (25 / 100)) e1 = Inr (True, e5)"
  by (simp add: step_eval demo_defs)

theorem done_flag_assigned_after_dequeue_witness:
  "\<exists>e1 e5. step_enter (now_start step_in2) env_after1 = Inr e1 \<and>
     step_issue cfg10_2 step_in2 (Fin (25 / 100)) e1 = Inr (True, e5) \<and>
     \<not> done_flag e5 \<and>
     (\<forall>used. \<not> done_flag (deliver cfg10_2 used e5)) \<and>
     data_q env_after1 \<noteq> None \<and> feeds cfg10_2 (evs_wait step_in2) \<and>
     (\<exists>res e' rest. step cfg10_2 step_in2 (Fin (25 / 100)) env_after1 = Returned res e' rest \<and>
        done_flag e' = True)"
proof -
  from last_step_demo obtain e1 e5 where
    en: "step_enter (now_start step_in2) env_after1 = Inr e1" and
    iss: "step_issue cfg10_2 step_in2 (Fin (25 / 100)) e1 = Inr (True, e5)"
    by blast
  have q: "data_q env_after1 \<noteq> None" by (simp add: env_after1_def)
  have f: "feeds cfg10_2 (evs_wait step_in2)"
    using demo_feeds(2) by (simp add: step_in2_def)
  from done_flag_assigned_after_dequeue [OF en iss] q f en iss
  show ?thesis by blast
qed

section \<open>The congestion guard\<close>

lemma on_event_trace_mono: "x \<in> set (trace e) \<Longrightarrow> x \<in> set (trace (on_event cfg ev e))"
  by (cases ev)
     (auto simp: on_mktdata_def on_order_def on_alert_def put_nowait_def Let_def
        split: option.splits)

lemma deliver_trace_mono: "x \<in> set (trace e) \<Longrightarrow> x \<in> set (trace (deliver cfg evs e))"
  by (induction evs arbitrary: e) (simp_all add: on_event_trace_mono)

lemma step_warns:
  assumes s: "step cfg inp a e = Returned (ob, r, d, nfo) e' rest"
    and c: "\<not> may_issue cfg (gw_position (gw_issue inp)) (gw_open_orders (gw_issue inp))"
  shows "WarnConstipation (gw_position (gw_issue inp)) (gw_open_orders (gw_issue inp))
           \<in> set (trace e')"
proof -
  let ?w = "WarnConstipation (gw_position (gw_issue inp)) (gw_open_orders (gw_issue inp))"
  from step_accounts [OF s] obtain e1 e5 used q where
    iss: "step_issue cfg inp a e1 = Inr (d, e5)" and
    e': "e' = (deliver cfg used e5)\<lparr>data_q := Some q, observation := ob, done_flag := d,
              act_start_time := Some (now_end inp)\<rparr>"
    by blast
  from step_issue_Inr [OF iss] obtain x e3 where
    e3: "e3 = issue_order cfg (gw_issue inp) x (e1\<lparr>action := Some (if d then Fin 0 else a)\<rparr>)"
    and e5: "e5 = settle_reward
               (if d then deliver cfg (evs_sleep inp) (e3\<lparr>trace := trace e3 @ [Sleep]\<rparr>) else e3)"
    by blast
  have w3: "?w \<in> set (trace e3)"
    using issue_order_warns [OF c] by (simp add: e3)
  then have "?w \<in> set (trace (e3\<lparr>trace := trace e3 @ [Sleep]\<rparr>))" by simp
  then have "?w \<in> set (trace (deliver cfg (evs_sleep inp) (e3\<lparr>trace := trace e3 @ [Sleep]\<rparr>)))"
    by (rule deliver_trace_mono)
  with w3 have "?w \<in> set (trace e5)"
    by (simp add: e5 settle_reward_fields)
  then have "?w \<in> set (trace (deliver cfg used e5))"
    by (rule deliver_trace_mono)
  then show ?thesis by (simp add: e')
qed

text \<open>
  Claim C5. In an active episode, a step whose action passes the checks returns as soon as
  an observation is or becomes available, whether or not the order is issued, and it is
  the last step only by the step limit or the finish request. It asks the gateway to
  cancel first. If the position the gateway reports is at most \<open>max_quantity + 1\<close> in
  absolute value and there are at most two open orders, the only other request is the
  order for the new desired position; otherwise there is no other request, the desired
  position keeps its value and the congestion warning is logged.
\<close>

theorem order_issued_iff_not_congested:
  assumes nd: "\<not> done_flag e" and t0: "act_start_time e = Some t0" and q: "data_q e \<noteq> None"
    and ok: "last_step cfg (counted e) \<or> a \<noteq> NaN"
    and feed: "q_ready e \<or>
       feeds cfg ((if last_step cfg (counted e) then evs_sleep inp else []) @ evs_wait inp)"
  shows "\<exists>ob r nfo e' rest.
      step cfg inp a e = Returned (ob, r, last_step cfg (counted e), nfo) e' rest \<and>
      (if \<bar>gw_position (gw_issue inp)\<bar> \<le> max_quantity cfg + 1 \<and>
          gw_open_orders (gw_issue inp) \<le> 2
       then requests (trace e') = requests (trace e) @ [CancelAll, OrderTarget (pos_desired e')]
       else requests (trace e') = requests (trace e) @ [CancelAll] \<and>
            pos_desired e' = pos_desired e \<and>
            WarnConstipation (gw_position (gw_issue inp)) (gw_open_orders (gw_issue inp))
              \<in> set (trace e'))"
proof -
  from step_returns [OF nd t0 q ok feed] obtain ob r nfo e' rest where
    s: "step cfg inp a e = Returned (ob, r, last_step cfg (counted e), nfo) e' rest"
    by blast
  from step_state [OF s] obtain x where
    p: "pos_desired e' =
        (if may_issue cfg (gw_position (gw_issue inp)) (gw_open_orders (gw_issue inp))
         then py_round (x * of_int (max_quantity cfg)) else pos_desired e)" and
    tr: "requests (trace e') =
        requests (trace e) @ CancelAll #
          (if may_issue cfg (gw_position (gw_issue inp)) (gw_open_orders (gw_issue inp))
           then [OrderTarget (py_round (x * of_int (max_quantity cfg)))] else [])"
    by blast
  show ?thesis
  proof (cases "may_issue cfg (gw_position (gw_issue inp)) (gw_open_orders (gw_issue inp))")
    case True
    with s p tr show ?thesis by (auto simp: may_issue_def)
  next
    case False
    from step_warns [OF s False] False s p tr show ?thesis by (auto simp: may_issue_def)
  qed
qed

theorem order_issued_iff_not_congested_witness:
  "(\<exists>ob r nfo e' rest.
      step cfg10 (step_in_at 11 0) (Fin (25 / 100)) env_after1 = Returned (ob, r, False, nfo) e' rest \<and>
      requests (trace e') = requests (trace env_after1) @ [CancelAll, OrderTarget (pos_desired e')]) \<and>
   (\<exists>ob r nfo e' rest.
      step cfg10 (step_in_at 12 0) (Fin (25 / 100)) env_after1 = Returned (ob, r, False, nfo) e' rest \<and>
      requests (trace e') = requests (trace env_after1) @ [CancelAll] \<and>
      pos_desired e' = 6 \<and> WarnConstipation 12 0 \<in> set (trace e')) \<and>
   (\<exists>ob r nfo e' rest.
      step cfg10 (step_in_at 0 3) (Fin (25 / 100)) env_after1 = Returned (ob, r, False, nfo) e' rest \<and>
      requests (trace e') = requests (trace env_after1) @ [CancelAll] \<and>
      pos_desired e' = 6 \<and> WarnConstipation 0 3 \<in> set (trace e'))"
proof -
  have a: "\<not> done_flag env_after1" "act_start_time env_after1 = Some 2"
    "data_q env_after1 \<noteq> None"
    by (simp_all add: env_after1_def)
  have l: "last_step cfg10 (counted env_after1) = False"
    by (simp add: last_step_def counted_def cfg10_def env_after1_def)
  have ok: "last_step cfg10 (counted env_after1) \<or> Fin (25 / 100) \<noteq> NaN" by simp
  have f: "q_ready env_after1 \<or>
       feeds cfg10 ((if last_step cfg10 (counted env_after1) then evs_sleep (step_in_at p n) else [])
                     @ evs_wait (step_in_at p n))" for p n
    using demo_feeds(1) by (simp add: l step_in_at_def)
  have g: "gw_position (gw_issue (step_in_at p n)) = p"
    "gw_open_orders (gw_issue (step_in_at p n)) = n" for p n
    by (simp_all add: step_in_at_def)
  have m: "max_quantity cfg10 = 10" "pos_desired env_after1 = 6"
    by (simp_all add: cfg10_def env_after1_def)
  from order_issued_iff_not_congested [OF a ok f, of 11 0]
  have one: "\<exists>ob r nfo e' rest.
      step cfg10 (step_in_at 11 0) (Fin (25 / 100)) env_after1 = Returned (ob, r, False, nfo) e' rest \<and>
      requests (trace e') = requests (trace env_after1) @ [CancelAll, OrderTarget (pos_desired e')]"
    by (simp add: l g m)
  from order_issued_iff_not_congested [OF a ok f, of 12 0]
  have two: "\<exists>ob r nfo e' rest.
      step cfg10 (step_in_at 12 0) (Fin (25 / 100)) env_after1 = Returned (ob, r, False, nfo) e' rest \<and>
      requests (trace e') = requests (trace env_after1) @ [CancelAll] \<and>
      pos_desired e' = 6 \<and> WarnConstipation 12 0 \<in> set (trace e')"
    by (simp add: l g m)
  from order_issued_iff_not_congested [OF a ok f, of 0 3]
  have three: "\<exists>ob r nfo e' rest.
      step cfg10 (step_in_at 0 3) (Fin (25 / 100)) env_after1 = Returned (ob, r, False, nfo) e' rest \<and>
      requests (trace e') = requests (trace env_after1) @ [CancelAll] \<and>
      pos_desired e' = 6 \<and> WarnConstipation 0 3 \<in> set (trace e')"
    by (simp add: l g m)
  from one two three show ?thesis by blast
qed

section \<open>Rounding the action to a position\<close>



lemma py_round_of_int: "py_round (of_int n) = n"
  by (simp add: py_round_def Let_def)



section \<open>Actions out of range\<close>

text \<open>
  Claim C8 as stated, refuted: on the last step of an episode the action 5 is neither
  kept nor clipped. The second step of a two-step episode records the action 0 and
  orders the target 0, where the clipped action would order 10.
\<close>

theorem out_of_range_action_counterexample:
  "step cfg10_2 step_in2 (Fin 5) env_after1 =
     Returned (Some (bar_array bar0), Some 6, True, info_last) env_last [] \<and>
   action env_last = Some (Fin 0) \<and> action env_last \<noteq> Some (Fin 5) \<and>
   requests (trace env_last) = requests (trace env_after1) @ [CancelAll, OrderTarget 0] \<and>
   py_round (1 * of_int (max_quantity cfg10_2)) = 10"
  by (simp add: step_eval demo_defs step_in2_def env_last_def info_last_def bar0_def
      bar_array_def requests_def)

text \<open>
  Claim C8, amended. In an active episode, a step with an action above 1 or below -1,
  infinite ones included, is not rejected: it returns as soon as an observation is or
  becomes available. When the step is not the last one, the recorded action is the
  agent's value as it came, and the order, if the congestion guard lets it pass, is for
  \<open>max_quantity\<close> or \<open>- max_quantity\<close>, the action clipped to 1 or -1. On the last step
  the action is replaced by 0 before it is recorded and used.
\<close>

theorem out_of_range_action_is_clipped:
  assumes nd: "\<not> done_flag e" and t0: "act_start_time e = Some t0" and q: "data_q e \<noteq> None"
    and out: "a = PosInf \<or> a = NegInf \<or> (\<exists>v. a = Fin v \<and> (v < - 1 \<or> 1 < v))"
    and feed: "q_ready e \<or>
       feeds cfg ((if last_step cfg (counted e) then evs_sleep inp else []) @ evs_wait inp)"
  shows "\<exists>ob r d nfo e' rest c.
      step cfg inp a e = Returned (ob, r, d, nfo) e' rest \<and>
      d = last_step cfg (counted e) \<and>
      action e' = Some (if d then Fin 0 else a) \<and>
      np_clip a = Fin (of_int c) \<and> (c = 1 \<or> c = - 1) \<and>
      requests (trace e') =
        requests (trace e) @ CancelAll #
          (if may_issue cfg (gw_position (gw_issue inp)) (gw_open_orders (gw_issue inp))
           then [OrderTarget (if d then 0 else c * max_quantity cfg)] else [])"
proof -
  from out have nn: "last_step cfg (counted e) \<or> a \<noteq> NaN" by auto
  from out obtain c :: int where c: "np_clip a = Fin (of_int c)" "c = 1 \<or> c = - 1"
  proof
    assume "a = PosInf"
    then have "np_clip a = Fin (of_int 1)" by simp
    with that show ?thesis by blast
  next
    assume "a = NegInf \<or> (\<exists>v. a = Fin v \<and> (v < - 1 \<or> 1 < v))"
    then show ?thesis
    proof
      assume "a = NegInf"
      then have "np_clip a = Fin (of_int (- 1))" by simp
      with that show ?thesis by blast
    next
      assume "\<exists>v. a = Fin v \<and> (v < - 1 \<or> 1 < v)"
      then obtain v where v: "a = Fin v" "v < - 1 \<or> 1 < v" by blast
      show ?thesis
      proof (cases "1 < v")
        case True
        with v have "np_clip a = Fin (of_int 1)" by simp
        with that show ?thesis by blast
      next
        case False
        with v have "np_clip a = Fin (of_int (- 1))" by simp
        with that show ?thesis by blast
      qed
    qed
  qed
  from step_returns [OF nd t0 q nn feed] obtain ob r nfo e' rest where
    s: "step cfg inp a e = Returned (ob, r, last_step cfg (counted e), nfo) e' rest"
    by blast
  let ?d = "last_step cfg (counted e)"
  from step_state [OF s] obtain x where
    x: "np_clip (if ?d then Fin 0 else a) = Fin x" and
    act: "action e' = Some (if ?d then Fin 0 else a)" and
    tr: "requests (trace e') =
        requests (trace e) @ CancelAll #
          (if may_issue cfg (gw_position (gw_issue inp)) (gw_open_orders (gw_issue inp))
           then [OrderTarget (py_round (x * of_int (max_quantity cfg)))] else [])"
    by blast
  have "py_round (x * of_int (max_quantity cfg)) = (if ?d then 0 else c * max_quantity cfg)"
  proof (cases ?d)
    case True
    with x have "x = 0" by simp
    with True show ?thesis by (simp add: py_round_0)
  next
    case False
    with x c have "x = of_int c" by simp
    then have "x * of_int (max_quantity cfg) = of_int (c * max_quantity cfg)" by simp
    with False show ?thesis by (simp only: py_round_of_int if_False)
  qed
  with tr have "requests (trace e') =
        requests (trace e) @ CancelAll #
          (if may_issue cfg (gw_position (gw_issue inp)) (gw_open_orders (gw_issue inp))
           then [OrderTarget (if ?d then 0 else c * max_quantity cfg)] else [])"
    by simp
  with s act c show ?thesis by blast
qed

theorem out_of_range_action_is_clipped_witness:
  "\<exists>ob r nfo e' rest.
      step cfg10 step_in1 (Fin 5) env_active = Returned (ob, r, False, nfo) e' rest \<and>
      action e' = Some (Fin 5) \<and>
      requests (trace e') = requests (trace env_active) @ [CancelAll, OrderTarget 10]"
proof -
  have a: "\<not> done_flag env_active" "act_start_time env_active = Some 0"
    "data_q env_active \<noteq> None"
    by (simp_all add: env_active_def)
  have l: "last_step cfg10 (counted env_active) = False"
    by (simp add: last_step_def counted_def cfg10_def env_active_def)
  have f: "q_ready env_active \<or>
       feeds cfg10 ((if last_step cfg10 (counted env_active) then evs_sleep step_in1 else [])
                     @ evs_wait step_in1)"
    by (simp add: l step_in1_def feeds_def cooked_def cfg10_def default_xform_def gw_flat_def)
  have g: "may_issue cfg10 (gw_position (gw_issue step_in1)) (gw_open_orders (gw_issue step_in1))"
    by (simp add: may_issue_def step_in1_def gw_flat_def cfg10_def)
  have m: "max_quantity cfg10 = 10" by (simp add: cfg10_def)
  have out: "Fin 5 = PosInf \<or> Fin 5 = NegInf \<or> (\<exists>v. Fin 5 = Fin v \<and> (v < - 1 \<or> 1 < v))"
    by simp
  from out_of_range_action_is_clipped [OF a out f]
  obtain ob r nfo e' rest c where
    s: "step cfg10 step_in1 (Fin 5) env_active = Returned (ob, r, False, nfo) e' rest" and
    act: "action e' = Some (Fin 5)" and
    c: "np_clip (Fin 5) = Fin (of_int c)" "c = 1 \<or> c = - 1" and
    tr: "requests (trace e') = requests (trace env_active) @ [CancelAll, OrderTarget (c * 10)]"
    using g unfolding l m by auto
  from c have "c = 1" by auto
  with s act tr show ?thesis by auto
qed

section \<open>What enters the queue\<close>

lemma on_mktdata_queue:
  "data_q (on_mktdata cfg b g e) =
     (if cooked cfg b g \<noteq> None \<and> gw_connected g \<and> \<not> done_flag e \<and> data_q e \<noteq> None
      then map_option (\<lambda>q. q @ [cooked cfg b g]) (data_q e) else data_q e)"
  by (auto simp: on_mktdata_def put_nowait_def Let_def)

lemma on_event_queue_ok: "queue_ok e \<Longrightarrow> queue_ok (on_event cfg ev e)"
proof (cases ev)
  case (OnBar b g)
  assume "queue_ok e"
  then show ?thesis
    unfolding OnBar queue_ok_def on_event.simps on_mktdata_queue
    by (auto split: option.splits)
next
  case (OnOrder p)
  assume "queue_ok e"
  then show ?thesis by (simp add: OnOrder queue_ok_def on_order_def)
next
  case OnAlert
  assume "queue_ok e"
  then show ?thesis by (simp add: OnAlert queue_ok_def on_alert_def)
qed

lemma deliver_queue_ok: "queue_ok e \<Longrightarrow> queue_ok (deliver cfg evs e)"
  by (induction evs arbitrary: e) (simp_all add: on_event_queue_ok)

lemma q_get_queue_ok:
  assumes "queue_ok e" "q_get cfg evs e = Returned ob e' rest"
  shows "ob \<noteq> None \<and> queue_ok e'"
proof -
  from q_get_Returned [OF assms(2)] obtain used q where
    d: "data_q (deliver cfg used e) = Some (ob # q)" and
    e': "e' = (deliver cfg used e)\<lparr>data_q := Some q\<rparr>"
    by blast
  from deliver_queue_ok [OF assms(1), of cfg used] d have "None \<notin> set (ob # q)"
    by (simp add: queue_ok_def)
  then have "ob \<noteq> None \<and> None \<notin> set q" by (cases ob) simp_all
  then show ?thesis by (simp add: e' queue_ok_def)
qed

lemma get_n_queue_ok:
  "queue_ok e \<Longrightarrow> get_n cfg n evs e = Returned obs e' rest \<Longrightarrow>
     length obs = n \<and> None \<notin> set obs \<and> queue_ok e'"
proof (induction n arbitrary: e evs obs)
  case 0
  then show ?case by simp
next
  case (Suc n)
  from Suc.prems(2) obtain ob e1 rest1 obs1 where
    g: "q_get cfg evs e = Returned ob e1 rest1" and
    r: "get_n cfg n rest1 e1 = Returned obs1 e' rest" and
    o: "obs = ob # obs1"
    by (auto split: outcome.splits)
  from q_get_queue_ok [OF Suc.prems(1) g] have ob: "ob \<noteq> None" and ok1: "queue_ok e1"
    by simp_all
  from Suc.IH [OF ok1 r] ob o show ?case by auto
qed

lemma step_queue_ok:
  assumes ok: "queue_ok e" and s: "step cfg inp a e = Returned (ob, r, d, nfo) e' rest"
  shows "ob \<noteq> None \<and> queue_ok e'"
proof -
  from step_accounts [OF s] obtain e1 e5 used q where
    en: "step_enter (now_start inp) e = Inr e1" and
    iss: "step_issue cfg inp a e1 = Inr (d, e5)" and
    qg: "q_get cfg (evs_wait inp) e5 =
           Returned ob ((deliver cfg used e5)\<lparr>data_q := Some q\<rparr>) rest" and
    e': "e' = (deliver cfg used e5)\<lparr>data_q := Some q, observation := ob, done_flag := d,
              act_start_time := Some (now_end inp)\<rparr>"
    by blast
  from step_enter_Inr [OF en] have q1: "data_q e1 = data_q e" by auto
  from step_issue_Inr [OF iss] obtain x e3 where
    e3: "e3 = issue_order cfg (gw_issue inp) x (e1\<lparr>action := Some (if d then Fin 0 else a)\<rparr>)"
    and e5: "e5 = settle_reward
               (if d then deliver cfg (evs_sleep inp) (e3\<lparr>trace := trace e3 @ [Sleep]\<rparr>) else e3)"
    by blast
  have "data_q e3 = data_q e" by (simp add: e3 issue_order_frame q1)
  with ok have ok3: "queue_ok e3" by (simp add: queue_ok_def)
  then have "queue_ok (e3\<lparr>trace := trace e3 @ [Sleep]\<rparr>)" by (simp add: queue_ok_def)
  then have "queue_ok (deliver cfg (evs_sleep inp) (e3\<lparr>trace := trace e3 @ [Sleep]\<rparr>))"
    by (rule deliver_queue_ok)
  with ok3 have "queue_ok e5" by (simp add: e5 queue_ok_def settle_reward_fields)
  from q_get_queue_ok [OF this qg] show ?thesis by (simp add: e' queue_ok_def)
qed

lemma reset_queue_ok:
  assumes "reset cfg inp e = Returned ob e' rest"
  shows "ob \<noteq> None \<and> queue_ok e'"
proof -
  let ?e1 = "flatten cfg (r_evs_sleep inp) (e\<lparr>done_flag := True\<rparr>)"
  let ?e2 = "?e1\<lparr>profit := 0, episode_profit := 0, reward := Some 0, unrealized_gain := 0,
                 observation := None, done_flag := False, action := Some (Fin 0),
                 pos_desired := 0, finish_flag := False, step_num := 0,
                 data_q := Some []\<rparr>"
  from assms obtain e3 where
    g: "q_get cfg (r_evs_wait inp) ?e2 = Returned ob e3 rest" and
    e': "e' = e3\<lparr>observation := ob, act_start_time := Some (r_now inp)\<rparr>"
    by (auto simp: reset_def Let_def split: outcome.splits)
  have "queue_ok ?e2" by (simp add: queue_ok_def)
  from q_get_queue_ok [OF this g] show ?thesis by (simp add: e' queue_ok_def)
qed

text \<open>
  Claim C7. A call of the market-data callback appends the transformed observation to
  the queue if the observation is not the "not ready" value, the gateway is connected,
  the environment is not done and the queue exists; in every other case it leaves the
  queue as it is. So a queue without a "not ready" item stays so under every callback,
  and a consumer that takes n items off it, when it gets them, gets n observations none
  of which is the "not ready" value; the same holds for the observation a step
  returns, and for the one a reset returns from its fresh queue.
\<close>

theorem only_ready_observations_are_queued:
  assumes "queue_ok e"
  shows "data_q (on_mktdata cfg b g e) =
       (if cooked cfg b g \<noteq> None \<and> gw_connected g \<and> \<not> done_flag e \<and> data_q e \<noteq> None
        then map_option (\<lambda>q. q @ [cooked cfg b g]) (data_q e) else data_q e) \<and>
     queue_ok (on_event cfg ev e) \<and>
     (\<forall>n evs obs e' rest. get_n cfg n evs e = Returned obs e' rest \<longrightarrow>
        length obs = n \<and> None \<notin> set obs \<and> queue_ok e') \<and>
     (\<forall>inp a ob r d nfo e' rest. step cfg inp a e = Returned (ob, r, d, nfo) e' rest \<longrightarrow>
        ob \<noteq> None \<and> queue_ok e') \<and>
     (\<forall>inp ob e' rest. reset cfg inp e = Returned ob e' rest \<longrightarrow> ob \<noteq> None \<and> queue_ok e')"
proof (intro conjI allI impI)
  show "data_q (on_mktdata cfg b g e) =
       (if cooked cfg b g \<noteq> None \<and> gw_connected g \<and> \<not> done_flag e \<and> data_q e \<noteq> None
        then map_option (\<lambda>q. q @ [cooked cfg b g]) (data_q e) else data_q e)"
    by (rule on_mktdata_queue)
  show "queue_ok (on_event cfg ev e)"
    using assms by (rule on_event_queue_ok)
next
  fix n evs obs e' rest
  assume g: "get_n cfg n evs e = Returned obs e' rest"
  from get_n_queue_ok [OF assms g]
  show "length obs = n" "None \<notin> set obs" "queue_ok e'" by simp_all
next
  fix inp a ob r d nfo e' rest
  assume s: "step cfg inp a e = Returned (ob, r, d, nfo) e' rest"
  from step_queue_ok [OF assms s] show "ob \<noteq> None" "queue_ok e'" by simp_all
next
  fix inp ob e' rest
  assume r: "reset cfg inp e = Returned ob e' rest"
  from reset_queue_ok [OF r] show "ob \<noteq> None" "queue_ok e'" by simp_all
qed

lemma get_n_demo:
  "\<exists>e'. get_n cfg_warmup 2
       [OnBar bar_early gw_flat, OnBar bar0 gw_flat, OnOrder 1, OnBar bar0 gw_holding]
       env_active =
     Returned [Some [100, 0], Some [100, 297]] e' []"
  by (simp add: numeral_2_eq_2 step_eval demo_defs cfg_warmup_def warmup_xform_def
      bar_early_def bar0_def bar_array_def gw_holding_def)

theorem only_ready_observations_are_queued_witness:
  "queue_ok env_active \<and>
   data_q (on_mktdata cfg_warmup bar_early gw_flat env_active) = Some [] \<and>
   data_q (on_mktdata cfg_warmup bar0 gw_flat env_active) = Some [Some [100, 0]] \<and>
   data_q (on_mktdata cfg_warmup bar0 gw_flat env_done) = Some [] \<and>
   (\<exists>obs e' rest.
      get_n cfg_warmup 2
        [OnBar bar_early gw_flat, OnBar bar0 gw_flat, OnOrder 1, OnBar bar0 gw_holding]
        env_active = Returned obs e' rest \<and>
      length obs = 2 \<and> None \<notin> set obs \<and> queue_ok e')"
proof -
  have ok: "queue_ok env_active" "queue_ok env_done"
    by (simp_all add: queue_ok_def env_active_def env_done_def env_after1_def)
  have c: "cooked cfg_warmup bar_early gw_flat = None"
    "cooked cfg_warmup bar0 gw_flat = Some [100, 0]"
    by (simp_all add: cooked_def cfg_warmup_def warmup_xform_def bar_early_def bar0_def
        bar_array_def unrealized_def gw_flat_def cost_or_0_def)
  have s: "gw_connected gw_flat" "\<not> done_flag env_active" "data_q env_active = Some []"
    "done_flag env_done" "data_q env_done = Some []"
    by (simp_all add: gw_flat_def env_active_def env_done_def env_after1_def)
  from only_ready_observations_are_queued [OF ok(1), of cfg_warmup bar_early gw_flat]
  have one: "data_q (on_mktdata cfg_warmup bar_early gw_flat env_active) = Some []"
    by (simp add: c s)
  from only_ready_observations_are_queued [OF ok(1), of cfg_warmup bar0 gw_flat]
  have two: "data_q (on_mktdata cfg_warmup bar0 gw_flat env_active) = Some [Some [100, 0]]"
    by (simp add: c s)
  from only_ready_observations_are_queued [OF ok(2), of cfg_warmup bar0 gw_flat]
  have three: "data_q (on_mktdata cfg_warmup bar0 gw_flat env_done) = Some []"
    by (simp add: c s)
  have four: "\<exists>obs e' rest.
      get_n cfg_warmup 2
        [OnBar bar_early gw_flat, OnBar bar0 gw_flat, OnOrder 1, OnBar bar0 gw_holding]
        env_active = Returned obs e' rest \<and>
      length obs = 2 \<and> None \<notin> set obs \<and> queue_ok e'"
  proof -
    from get_n_demo obtain e' where
      g: "get_n cfg_warmup 2
            [OnBar bar_early gw_flat, OnBar bar0 gw_flat, OnOrder 1, OnBar bar0 gw_holding]
            env_active = Returned [Some [100, 0], Some [100, 297]] e' []"
      by blast
    from only_ready_observations_are_queued [OF ok(1), of cfg_warmup bar0 gw_flat]
    have "\<forall>n evs obs e' rest. get_n cfg_warmup n evs env_active = Returned obs e' rest \<longrightarrow>
        length obs = n \<and> None \<notin> set obs \<and> queue_ok e'"
      by blast
    with g have "length [Some [100, 0], Some [100, 297::real]] = 2 \<and>
        None \<notin> set [Some [100, 0], Some [100, 297::real]] \<and> queue_ok e'"
      by blast
    with g show ?thesis by blast
  qed
  from ok(1) one two three four show ?thesis by blast
qed

section \<open>Reset\<close>

text \<open>
  Claim C9 as stated, refuted: reset does not wait for the flatten order to be filled.
  When a fill arrives after the accounts are cleared and the first bar still reports
  3 contracts, reset returns with a per-step profit of 5 and an actual position of 3.
\<close>

theorem reset_counterexample:
  "reset cfg10 reset_in1 env_done = Returned (Some (bar_array bar0)) env_reset [OnOrder 7] \<and>
   profit env_reset = 5 \<and> pos_actual env_reset = 3"
  by (simp add: reset_def flatten_def step_eval demo_defs env_done_def reset_in1_def
      env_reset_def gw_holding_def bar0_def bar_array_def)

lemma wait_q_ready: "q_ready e \<Longrightarrow> wait_q cfg evs e = Some (e, evs)"
  by (cases evs) simp_all

lemma on_event_fills_queue:
  assumes "data_q e = Some []" "q_ready (on_event cfg ev e)"
  shows "\<exists>b g. ev = OnBar b g \<and> bar_ready cfg ev \<and>
     data_q (on_event cfg ev e) = Some [cooked cfg b g] \<and>
     pos_actual (on_event cfg ev e) = gw_position g"
proof (cases ev)
  case (OnBar b g)
  with assms show ?thesis
    by (auto simp: q_ready_def on_mktdata_def put_nowait_def Let_def split: if_splits)
next
  case (OnOrder p)
  with assms show ?thesis by (simp add: q_ready_def on_order_def)
next
  case OnAlert
  with assms show ?thesis by (simp add: q_ready_def on_alert_def)
qed

lemma on_event_keeps_empty:
  assumes "data_q e = Some []" "\<not> q_ready (on_event cfg ev e)"
  shows "data_q (on_event cfg ev e) = Some []"
proof -
  from assms(1) have "data_q (on_event cfg ev e) \<noteq> None" by (simp add: on_event_q_None)
  with assms(2) show ?thesis by (auto simp: q_ready_def)
qed

text \<open>A wait that starts on the empty queue ends right after the first bar that is
  queued; the events before it are consumed and leave the queue empty.\<close>

lemma wait_q_from_empty:
  "wait_q cfg evs e = Some (e1, rest) \<Longrightarrow> data_q e = Some [] \<Longrightarrow>
     \<exists>used b g. evs = used @ OnBar b g # rest \<and> bar_ready cfg (OnBar b g) \<and>
       e1 = on_mktdata cfg b g (deliver cfg used e) \<and>
       data_q e1 = Some [cooked cfg b g] \<and> pos_actual e1 = gw_position g"
proof (induction evs arbitrary: e)
  case Nil
  then show ?case by (simp add: q_ready_def)
next
  case (Cons ev evs)
  from Cons.prems(2) have nr: "\<not> q_ready e" by (simp add: q_ready_def)
  with Cons.prems(1) have w: "wait_q cfg evs (on_event cfg ev e) = Some (e1, rest)" by simp
  show ?case
  proof (cases "q_ready (on_event cfg ev e)")
    case True
    from wait_q_ready [OF True, of cfg evs] w have e1: "e1 = on_event cfg ev e" "rest = evs"
      by simp_all
    from on_event_fills_queue [OF Cons.prems(2) True] obtain b g where
      "ev = OnBar b g" "bar_ready cfg ev"
      "data_q (on_event cfg ev e) = Some [cooked cfg b g]"
      "pos_actual (on_event cfg ev e) = gw_position g"
      by blast
    with e1 have "ev # evs = [] @ OnBar b g # rest \<and> bar_ready cfg (OnBar b g) \<and>
       e1 = on_mktdata cfg b g (deliver cfg [] e) \<and>
       data_q e1 = Some [cooked cfg b g] \<and> pos_actual e1 = gw_position g"
      by simp
    then show ?thesis by blast
  next
    case False
    from on_event_keeps_empty [OF Cons.prems(2) False]
    have "data_q (on_event cfg ev e) = Some []" .
    from Cons.IH [OF w this] obtain used b g where
      u: "evs = used @ OnBar b g # rest" "bar_ready cfg (OnBar b g)"
         "e1 = on_mktdata cfg b g (deliver cfg used (on_event cfg ev e))"
         "data_q e1 = Some [cooked cfg b g]" "pos_actual e1 = gw_position g"
      by blast
    then have "ev # evs = (ev # used) @ OnBar b g # rest \<and> bar_ready cfg (OnBar b g) \<and>
       e1 = on_mktdata cfg b g (deliver cfg (ev # used) e) \<and>
       data_q e1 = Some [cooked cfg b g] \<and> pos_actual e1 = gw_position g"
      by simp
    then show ?thesis by blast
  qed
qed

lemma on_mktdata_frame:
  "done_flag (on_mktdata cfg b g e) = done_flag e"
  "episode_profit (on_mktdata cfg b g e) = episode_profit e"
  "step_num (on_mktdata cfg b g e) = step_num e"
  "pos_desired (on_mktdata cfg b g e) = pos_desired e"
  "reward (on_mktdata cfg b g e) = reward e"
  "finish_flag (on_mktdata cfg b g e) = finish_flag e"
  "profit (on_mktdata cfg b g e) = profit e"
  "requests (trace (on_mktdata cfg b g e)) = requests (trace e)"
  using on_event_frame [of cfg "OnBar b g" e] on_event_profit [of cfg "OnBar b g" e]
    on_event_requests [of cfg "OnBar b g" e]
  by simp_all

text \<open>
  Claim C9, amended. From any state, done or in the middle of an episode, reset asks the
  gateway to flatten and, once a bar with a ready observation arrives while the gateway
  is connected, returns that bar's observation with the episode's profit at zero, the step
  counter at zero, the desired position at zero, the last reward at zero, the done flag
  and the finish request cleared and the queue empty. The per-step profit it returns with
  is the sum of the fills that arrived between the clearing of the accounts and that
  bar, zero if there were none; the actual position is the one the gateway reported at
  that bar.
\<close>

theorem reset_clears_accounts:
  assumes feed: "feeds cfg (r_evs_wait inp)"
  shows "\<exists>ob e' rest used b g.
      reset cfg inp e = Returned ob e' rest \<and>
      r_evs_wait inp = used @ OnBar b g # rest \<and>
      ob = cooked cfg b g \<and> ob \<noteq> None \<and> observation e' = ob \<and>
      episode_profit e' = 0 \<and> step_num e' = 0 \<and> pos_desired e' = 0 \<and>
      reward e' = Some 0 \<and> \<not> done_flag e' \<and> \<not> finish_flag e' \<and>
      data_q e' = Some [] \<and>
      profit e' = fills used \<and> pos_actual e' = gw_position g \<and>
      requests (trace e') = requests (trace e) @ [Flatten]"
proof -
  let ?e1 = "flatten cfg (r_evs_sleep inp) (e\<lparr>done_flag := True\<rparr>)"
  let ?e2 = "?e1\<lparr>profit := 0, episode_profit := 0, reward := Some 0, unrealized_gain := 0,
                 observation := None, done_flag := False, action := Some (Fin 0),
                 pos_desired := 0, finish_flag := False, step_num := 0,
                 data_q := Some []\<rparr>"
  have q2: "data_q ?e2 = Some []" and nd2: "\<not> done_flag ?e2" by simp_all
  have tr2: "requests (trace ?e2) = requests (trace e) @ [Flatten]"
    by (simp add: flatten_def deliver_requests) (simp add: requests_def)
  from wait_q_feeds [of ?e2 cfg "r_evs_wait inp"] feed q2 nd2 obtain e3 rest where
    w: "wait_q cfg (r_evs_wait inp) ?e2 = Some (e3, rest)"
    by auto
  from wait_q_from_empty [OF w q2] obtain used b g where
    u: "r_evs_wait inp = used @ OnBar b g # rest" and
    rdy: "bar_ready cfg (OnBar b g)" and
    e3: "e3 = on_mktdata cfg b g (deliver cfg used ?e2)" and
    q3: "data_q e3 = Some [cooked cfg b g]" and
    p3: "pos_actual e3 = gw_position g"
    by blast
  let ?e' = "e3\<lparr>data_q := Some [], observation := cooked cfg b g,
                act_start_time := Some (r_now inp)\<rparr>"
  have g: "q_get cfg (r_evs_wait inp) ?e2 = Returned (cooked cfg b g) (e3\<lparr>data_q := Some []\<rparr>) rest"
    using w q3 by (simp add: q_get_def)
  have r: "reset cfg inp e = Returned (cooked cfg b g) ?e' rest"
    unfolding reset_def Let_def g by simp
  have "episode_profit ?e' = 0" "step_num ?e' = 0" "pos_desired ?e' = 0"
    "reward ?e' = Some 0" "\<not> done_flag ?e'" "\<not> finish_flag ?e'"
    by (simp_all add: e3 on_mktdata_frame deliver_frame)
  moreover have "profit ?e' = fills used"
    by (simp add: e3 on_mktdata_frame deliver_profit)
  moreover have "requests (trace ?e') = requests (trace e) @ [Flatten]"
    using tr2 by (simp add: e3 on_mktdata_frame deliver_requests)
  moreover have "pos_actual ?e' = gw_position g" using p3 by simp
  moreover have "cooked cfg b g \<noteq> None" using rdy by simp
  moreover have "observation ?e' = cooked cfg b g" "data_q ?e' = Some []" by simp_all
  ultimately show ?thesis using r u by blast
qed

theorem reset_clears_accounts_witness:
  "feeds cfg10 (r_evs_wait reset_in1) \<and>
   (\<exists>ob e' rest used b g.
      reset cfg10 reset_in1 env_done = Returned ob e' rest \<and>
      r_evs_wait reset_in1 = used @ OnBar b g # rest \<and>
      ob = cooked cfg10 b g \<and> ob \<noteq> None \<and> observation e' = ob \<and>
      episode_profit e' = 0 \<and> step_num e' = 0 \<and> pos_desired e' = 0 \<and>
      reward e' = Some 0 \<and> \<not> done_flag e' \<and> \<not> finish_flag e' \<and>
      data_q e' = Some [] \<and>
      profit e' = fills used \<and> pos_actual e' = gw_position g \<and>
      requests (trace e') = requests (trace env_done) @ [Flatten])"
proof -
  have f: "feeds cfg10 (r_evs_wait reset_in1)"
    by (simp add: reset_in1_def feeds_def cooked_def cfg10_def default_xform_def gw_holding_def)
  from reset_clears_accounts [OF f, of env_done] f show ?thesis by blast
qed

end
